theory Spec2Isabelle
  imports Complex_Main "HOL-Library.Multiset"
begin

section \<open>Data model (src/types/index.ts)\<close>

text \<open>
  Identifiers are strings, as in the source (\<open>UUID = string\<close>). An \<open>ISODateTime\<close> string
  is represented by the absolute instant it denotes, in milliseconds since the epoch
  (what \<open>new Date(s).getTime()\<close> yields). Where the program validates a date before
  using it, a string that does not parse is \<open>None\<close>; where it does not
  (\<open>getNextAvailableSlot\<close>), the Invalid Date is a value of its own. JavaScript numbers
  that the program uses as counters and sizes (version, party size, capacity, minutes)
  are integers here, and \<open>NaN\<close> is a value of its own where an unvalidated number
  arrives.

  A JavaScript string whose characters the program inspects (a customer name, which is
  trimmed) is the list of its UTF-16 code units. The other strings (identifiers, phone
  numbers, notes, zone names, lock keys) are only compared and concatenated.
\<close>

type_synonym UUID = string
type_synonym ISODateTime = int
type_synonym JsString = "nat list"

datatype ReservationStatus = PENDING | CONFIRMED | SEATED | COMPLETED | CANCELLED | NO_SHOW

datatype TableStatus = AVAILABLE | OCCUPIED | RESERVED | CLEANING | OUT_OF_SERVICE

datatype WaiterStatus = W_AVAILABLE | W_BUSY | W_ON_BREAK | W_OFF_DUTY

record Customer =
  c_id :: UUID
  c_name :: JsString
  c_phone :: "string option"
  c_email :: "string option"
  c_notes :: "string option"
  c_createdAt :: ISODateTime
  c_updatedAt :: ISODateTime

record Table =
  t_id :: UUID
  t_number :: int
  t_capacity :: int
  t_status :: TableStatus
  t_section :: "string option"
  t_createdAt :: ISODateTime
  t_updatedAt :: ISODateTime

record Waiter =
  w_id :: UUID
  w_name :: string
  w_status :: WaiterStatus
  w_assignedTables :: "UUID list"
  w_createdAt :: ISODateTime
  w_updatedAt :: ISODateTime

record Reservation =
  r_id :: UUID
  r_customerId :: UUID
  r_customerName :: JsString
  r_partySize :: int
  r_tableId :: "UUID option"
  r_waiterId :: "UUID option"
  r_startTime :: ISODateTime
  r_endTime :: ISODateTime
  r_status :: ReservationStatus
  r_isWalkIn :: bool
  r_timezone :: string
  r_notes :: "string option"
  r_createdAt :: ISODateTime
  r_updatedAt :: ISODateTime
  r_version :: int

text \<open>
  \<open>Partial<T>\<close>: every field may be absent (\<open>None\<close>). For the fields that are optional in
  \<open>T\<close> itself, a present key may carry \<open>undefined\<close> (\<open>Some None\<close>).
\<close>

record ReservationPatch =
  p_id :: "UUID option"
  p_customerId :: "UUID option"
  p_customerName :: "JsString option"
  p_partySize :: "int option"
  p_tableId :: "UUID option option"
  p_waiterId :: "UUID option option"
  p_startTime :: "ISODateTime option"
  p_endTime :: "ISODateTime option"
  p_status :: "ReservationStatus option"
  p_isWalkIn :: "bool option"
  p_timezone :: "string option"
  p_notes :: "string option option"
  p_createdAt :: "ISODateTime option"
  p_updatedAt :: "ISODateTime option"
  p_version :: "int option"

record TablePatch =
  tp_id :: "UUID option"
  tp_number :: "int option"
  tp_capacity :: "int option"
  tp_status :: "TableStatus option"
  tp_section :: "string option option"
  tp_createdAt :: "ISODateTime option"
  tp_updatedAt :: "ISODateTime option"

record WaiterPatch =
  wp_id :: "UUID option"
  wp_name :: "string option"
  wp_status :: "WaiterStatus option"
  wp_assignedTables :: "UUID list option"
  wp_createdAt :: "ISODateTime option"
  wp_updatedAt :: "ISODateTime option"

definition emptyReservationPatch :: ReservationPatch where
  "emptyReservationPatch =
     \<lparr>p_id = None, p_customerId = None, p_customerName = None, p_partySize = None,
      p_tableId = None, p_waiterId = None, p_startTime = None, p_endTime = None,
      p_status = None, p_isWalkIn = None, p_timezone = None, p_notes = None,
      p_createdAt = None, p_updatedAt = None, p_version = None\<rparr>"

definition emptyTablePatch :: TablePatch where
  "emptyTablePatch =
     \<lparr>tp_id = None, tp_number = None, tp_capacity = None, tp_status = None,
      tp_section = None, tp_createdAt = None, tp_updatedAt = None\<rparr>"

definition emptyWaiterPatch :: WaiterPatch where
  "emptyWaiterPatch =
     \<lparr>wp_id = None, wp_name = None, wp_status = None, wp_assignedTables = None,
      wp_createdAt = None, wp_updatedAt = None\<rparr>"

section \<open>The in-memory store (data/store.ts)\<close>

text \<open>
  A JavaScript \<open>Map\<close> iterates in insertion order, and \<open>getAll\<close>, \<open>find\<close> and the stable
  sorts depend on that order: the items are an association list. \<open>Map.set\<close> on a present
  key replaces the value in place, on a new key it appends.
\<close>

type_synonym 'a Items = "(UUID \<times> 'a) list"

fun items_set :: "UUID \<Rightarrow> 'a \<Rightarrow> 'a Items \<Rightarrow> 'a Items" where
  "items_set k v [] = [(k, v)]"
| "items_set k v ((k', v') # xs) =
     (if k' = k then (k, v) # xs else (k', v') # items_set k v xs)"

definition getById :: "'a Items \<Rightarrow> UUID \<Rightarrow> 'a option" where
  "getById items ident = map_of items ident"

definition getAll :: "'a Items \<Rightarrow> 'a list" where
  "getAll items = map snd items"

text \<open>The object spread \<open>{...existing, ...updates}\<close>, field by field.\<close>

definition over :: "'a \<Rightarrow> 'a option \<Rightarrow> 'a" where
  "over old new = (case new of None \<Rightarrow> old | Some v \<Rightarrow> v)"

definition spreadReservation :: "Reservation \<Rightarrow> ReservationPatch \<Rightarrow> Reservation" where
  "spreadReservation e u =
     \<lparr>r_id = over (r_id e) (p_id u),
      r_customerId = over (r_customerId e) (p_customerId u),
      r_customerName = over (r_customerName e) (p_customerName u),
      r_partySize = over (r_partySize e) (p_partySize u),
      r_tableId = over (r_tableId e) (p_tableId u),
      r_waiterId = over (r_waiterId e) (p_waiterId u),
      r_startTime = over (r_startTime e) (p_startTime u),
      r_endTime = over (r_endTime e) (p_endTime u),
      r_status = over (r_status e) (p_status u),
      r_isWalkIn = over (r_isWalkIn e) (p_isWalkIn u),
      r_timezone = over (r_timezone e) (p_timezone u),
      r_notes = over (r_notes e) (p_notes u),
      r_createdAt = over (r_createdAt e) (p_createdAt u),
      r_updatedAt = over (r_updatedAt e) (p_updatedAt u),
      r_version = over (r_version e) (p_version u)\<rparr>"

definition spreadTable :: "Table \<Rightarrow> TablePatch \<Rightarrow> Table" where
  "spreadTable e u =
     \<lparr>t_id = over (t_id e) (tp_id u),
      t_number = over (t_number e) (tp_number u),
      t_capacity = over (t_capacity e) (tp_capacity u),
      t_status = over (t_status e) (tp_status u),
      t_section = over (t_section e) (tp_section u),
      t_createdAt = over (t_createdAt e) (tp_createdAt u),
      t_updatedAt = over (t_updatedAt e) (tp_updatedAt u)\<rparr>"

definition spreadWaiter :: "Waiter \<Rightarrow> WaiterPatch \<Rightarrow> Waiter" where
  "spreadWaiter e u =
     \<lparr>w_id = over (w_id e) (wp_id u),
      w_name = over (w_name e) (wp_name u),
      w_status = over (w_status e) (wp_status u),
      w_assignedTables = over (w_assignedTables e) (wp_assignedTables u),
      w_createdAt = over (w_createdAt e) (wp_createdAt u),
      w_updatedAt = over (w_updatedAt e) (wp_updatedAt u)\<rparr>"

text \<open>
  \<open>BaseStore.update\<close>, once per record kind: the spread, then \<open>id\<close> and \<open>createdAt\<close> of
  the existing record and \<open>updatedAt = nowUTC()\<close> on top. The clock reading is the
  argument \<open>now\<close>. The result is the returned record (\<open>undefined\<close> is \<open>None\<close>) and the
  items afterwards.
\<close>

definition reservationStore_update ::
  "ISODateTime \<Rightarrow> UUID \<Rightarrow> ReservationPatch \<Rightarrow> Reservation Items
     \<Rightarrow> Reservation option \<times> Reservation Items" where
  "reservationStore_update now ident updates items =
     (case getById items ident of
        None \<Rightarrow> (None, items)
      | Some existing \<Rightarrow>
          (let updated = (spreadReservation existing updates)
                 \<lparr>r_id := r_id existing, r_createdAt := r_createdAt existing,
                  r_updatedAt := now\<rparr>
           in (Some updated, items_set ident updated items)))"

definition tableStore_update ::
  "ISODateTime \<Rightarrow> UUID \<Rightarrow> TablePatch \<Rightarrow> Table Items \<Rightarrow> Table option \<times> Table Items" where
  "tableStore_update now ident updates items =
     (case getById items ident of
        None \<Rightarrow> (None, items)
      | Some existing \<Rightarrow>
          (let updated = (spreadTable existing updates)
                 \<lparr>t_id := t_id existing, t_createdAt := t_createdAt existing,
                  t_updatedAt := now\<rparr>
           in (Some updated, items_set ident updated items)))"

definition waiterStore_update ::
  "ISODateTime \<Rightarrow> UUID \<Rightarrow> WaiterPatch \<Rightarrow> Waiter Items \<Rightarrow> Waiter option \<times> Waiter Items" where
  "waiterStore_update now ident updates items =
     (case getById items ident of
        None \<Rightarrow> (None, items)
      | Some existing \<Rightarrow>
          (let updated = (spreadWaiter existing updates)
                 \<lparr>w_id := w_id existing, w_createdAt := w_createdAt existing,
                  w_updatedAt := now\<rparr>
           in (Some updated, items_set ident updated items)))"

text \<open>
  \<open>ReservationStore.updateWithVersion\<close>: \<open>null\<close> is \<open>None\<close>. The patch handed to
  \<open>update\<close> is \<open>{...updates, version: existing.version + 1}\<close>.
\<close>

definition updateWithVersion ::
  "ISODateTime \<Rightarrow> UUID \<Rightarrow> ReservationPatch \<Rightarrow> int \<Rightarrow> Reservation Items
     \<Rightarrow> Reservation option \<times> Reservation Items" where
  "updateWithVersion now ident updates expectedVersion items =
     (case getById items ident of
        None \<Rightarrow> (None, items)
      | Some existing \<Rightarrow>
          if r_version existing \<noteq> expectedVersion then (None, items)
          else reservationStore_update now ident
                 (updates\<lparr>p_version := Some (r_version existing + 1)\<rparr>) items)"


definition reservationStore_create ::
  "ISODateTime \<Rightarrow> UUID \<Rightarrow> Reservation \<Rightarrow> Reservation Items
     \<Rightarrow> Reservation \<times> Reservation Items" where
  \<comment> \<open>\<open>createItem\<close> sets \<open>id = uuidv4()\<close> (the argument \<open>newId\<close>), \<open>version = 1\<close> and both
      timestamps; \<open>create\<close> stores the item under its id.\<close>
  "reservationStore_create now newId d items =
     (let item = d\<lparr>r_id := newId, r_version := 1, r_createdAt := now, r_updatedAt := now\<rparr>
      in (item, items_set newId item items))"

definition customerStore_create ::
  "ISODateTime \<Rightarrow> UUID \<Rightarrow> Customer \<Rightarrow> Customer Items \<Rightarrow> Customer \<times> Customer Items" where
  "customerStore_create now newId d items =
     (let item = d\<lparr>c_id := newId, c_createdAt := now, c_updatedAt := now\<rparr>
      in (item, items_set newId item items))"

definition tableStore_create ::
  "ISODateTime \<Rightarrow> UUID \<Rightarrow> Table \<Rightarrow> Table Items \<Rightarrow> Table \<times> Table Items" where
  "tableStore_create now newId d items =
     (let item = d\<lparr>t_id := newId, t_createdAt := now, t_updatedAt := now\<rparr>
      in (item, items_set newId item items))"

definition findByPhone :: "Customer Items \<Rightarrow> string \<Rightarrow> Customer option" where
  "findByPhone items phone = find (\<lambda>c. c_phone c = Some phone) (getAll items)"

definition findByEmail :: "Customer Items \<Rightarrow> string \<Rightarrow> Customer option" where
  "findByEmail items email = find (\<lambda>c. c_email c = Some email) (getAll items)"

definition findByCapacity :: "Table Items \<Rightarrow> int \<Rightarrow> Table list" where
  "findByCapacity items minCapacity = filter (\<lambda>t. t_capacity t \<ge> minCapacity) (getAll items)"

definition findAvailableForPartySize :: "Table Items \<Rightarrow> int \<Rightarrow> Table list" where
  "findAvailableForPartySize items partySize =
     filter (\<lambda>t. t_status t = AVAILABLE \<and> t_capacity t \<ge> partySize) (getAll items)"

definition waiter_findByStatus :: "Waiter Items \<Rightarrow> WaiterStatus \<Rightarrow> Waiter list" where
  "waiter_findByStatus items status = filter (\<lambda>w. w_status w = status) (getAll items)"

text \<open>\<open>reduce\<close> without an initial value, on a non-empty array, keeping the earlier waiter on ties.\<close>

definition leastTables :: "Waiter \<Rightarrow> Waiter list \<Rightarrow> Waiter" where
  "leastTables w ws =
     foldl (\<lambda>m x. if length (w_assignedTables x) < length (w_assignedTables m) then x else m) w ws"

definition findWithLeastTables :: "Waiter Items \<Rightarrow> Waiter option" where
  "findWithLeastTables items =
     (case waiter_findByStatus items W_AVAILABLE of
        [] \<Rightarrow> (case waiter_findByStatus items W_BUSY of
                 [] \<Rightarrow> None
               | w # ws \<Rightarrow> Some (leastTables w ws))
      | w # ws \<Rightarrow> Some (leastTables w ws))"

definition assignTable :: "ISODateTime \<Rightarrow> UUID \<Rightarrow> UUID \<Rightarrow> Waiter Items \<Rightarrow> bool \<times> Waiter Items" where
  "assignTable now waiterId tableId items =
     (case getById items waiterId of
        None \<Rightarrow> (False, items)
      | Some waiter \<Rightarrow>
          if tableId \<notin> set (w_assignedTables waiter)
          then (True, snd (waiterStore_update now waiterId
                  (emptyWaiterPatch\<lparr>wp_assignedTables := Some (w_assignedTables waiter @ [tableId]),
                                    wp_status := Some W_BUSY\<rparr>) items))
          else (True, items))"

definition reservation_findByStatus ::
  "Reservation Items \<Rightarrow> ReservationStatus \<Rightarrow> Reservation list" where
  "reservation_findByStatus items status = filter (\<lambda>r. r_status r = status) (getAll items)"

definition findByTimeRange ::
  "Reservation Items \<Rightarrow> ISODateTime \<Rightarrow> ISODateTime \<Rightarrow> Reservation list" where
  "findByTimeRange items startTime endTime =
     filter (\<lambda>r. r_startTime r < endTime \<and> r_endTime r > startTime) (getAll items)"

section \<open>Time utilities (utils/timezone.ts)\<close>

text \<open>
  The time zone database behind \<open>Intl.DateTimeFormat\<close> is not part of the repository: it
  is a parameter, mapping a valid IANA name to the zone's offset from UTC, in
  milliseconds, at each instant.
\<close>

type_synonym TzDb = "string \<Rightarrow> (ISODateTime \<Rightarrow> int) option"

text \<open>
  \<open>Date.prototype.getMinutes\<close> and \<open>setMinutes\<close> work in the local time of the process.
  The zone of the process is a parameter too, given by the two conversions of the
  language: \<open>localTime\<close> takes an instant to the local time value at that instant, and
  \<open>utc\<close> takes a local time value back to an instant (where a local time is repeated or
  skipped at a transition, the host picks the instant).
\<close>

record LocalZone =
  localTime :: "ISODateTime \<Rightarrow> int"
  utc :: "int \<Rightarrow> ISODateTime"

definition DEFAULT_TIMEZONE :: string where
  "DEFAULT_TIMEZONE = ''UTC''"

definition DEFAULT_DURATION_MINUTES :: int where
  "DEFAULT_DURATION_MINUTES = 90"

definition isValidTimezone :: "TzDb \<Rightarrow> string \<Rightarrow> bool" where
  "isValidTimezone tzdb timezone = (tzdb timezone \<noteq> None)"

definition addMinutes :: "LocalZone \<Rightarrow> ISODateTime \<Rightarrow> int \<Rightarrow> ISODateTime" where
  \<comment> \<open>\<open>date.setMinutes(date.getMinutes() + minutes)\<close>: the minutes are added to the local
      time value, which is then converted back.\<close>
  "addMinutes zone datetime minutes = utc zone (localTime zone datetime + minutes * 60000)"

definition calculateEndTime :: "LocalZone \<Rightarrow> ISODateTime \<Rightarrow> int \<Rightarrow> ISODateTime" where
  "calculateEndTime zone startTime durationMinutes = addMinutes zone startTime durationMinutes"

definition doTimeRangesOverlap ::
  "ISODateTime \<Rightarrow> ISODateTime \<Rightarrow> ISODateTime \<Rightarrow> ISODateTime \<Rightarrow> bool" where
  "doTimeRangesOverlap s1 e1 s2 e2 = (s1 < e2 \<and> s2 < e1)"

definition isFutureDateTime :: "ISODateTime \<Rightarrow> ISODateTime \<Rightarrow> bool" where
  "isFutureDateTime now datetime = (datetime > now)"

text \<open>
  The proleptic Gregorian calendar: the day number since 1970-01-01 of a civil date
  (what \<open>Date.UTC\<close> computes through \<open>MakeDay\<close>), and the civil date of a day number (what
  the formatter prints). Months are \<open>1..12\<close> here.
\<close>

definition days_from_civil :: "int \<Rightarrow> int \<Rightarrow> int \<Rightarrow> int" where
  "days_from_civil y m d =
     (let y' = (if m \<le> 2 then y - 1 else y);
          era = y' div 400;
          yoe = y' - era * 400;
          doy = (153 * (if m > 2 then m - 3 else m + 9) + 2) div 5 + d - 1;
          doe = yoe * 365 + yoe div 4 - yoe div 100 + doy
      in era * 146097 + doe - 719468)"

definition civil_from_days :: "int \<Rightarrow> int \<times> int \<times> int" where
  "civil_from_days z =
     (let z' = z + 719468;
          era = z' div 146097;
          doe = z' - era * 146097;
          yoe = (doe - doe div 1460 + doe div 36524 - doe div 146096) div 365;
          doy = doe - (365 * yoe + yoe div 4 - yoe div 100);
          mp = (5 * doy + 2) div 153;
          d = doy - (153 * mp + 2) div 5 + 1;
          m = (if mp < 10 then mp + 3 else mp - 9)
      in (if m \<le> 2 then yoe + era * 400 + 1 else yoe + era * 400, m, d))"

definition DateUTC :: "int \<Rightarrow> int \<Rightarrow> int \<Rightarrow> int \<Rightarrow> int \<Rightarrow> int \<Rightarrow> int \<Rightarrow> ISODateTime" where
  \<comment> \<open>\<open>Date.UTC(year, monthIndex, day, h, min, s, ms)\<close> with \<open>monthIndex\<close> in \<open>0..11\<close>; a year
      in \<open>0..99\<close> means \<open>1900 + year\<close>.\<close>
  "DateUTC year monthIndex day h mi s ms =
     (let yr = (if 0 \<le> year \<and> year \<le> 99 then 1900 + year else year)
      in days_from_civil yr (monthIndex + 1) day * 86400000
           + h * 3600000 + mi * 60000 + s * 1000 + ms)"

definition formatDate :: "(ISODateTime \<Rightarrow> int) \<Rightarrow> ISODateTime \<Rightarrow> int \<times> int \<times> int" where
  \<comment> \<open>The \<open>en-CA\<close> formatter's \<open>YYYY-MM-DD\<close> of the instant in the zone, split into numbers.
      The formatter prints the year of the era without the era: the year \<open>0\<close> of the
      proleptic calendar is printed as \<open>1\<close>, the year \<open>- 1\<close> as \<open>2\<close>.\<close>
  "formatDate offset t =
     (case civil_from_days ((t + offset t) div 86400000) of
        (year, month, day) \<Rightarrow> (if year \<le> 0 then 1 - year else year, month, day))"

datatype TzError = InvalidTimezone string

definition getDayBoundsInTimezone ::
  "TzDb \<Rightarrow> ISODateTime \<Rightarrow> string \<Rightarrow> TzError + (ISODateTime \<times> ISODateTime)" where
  "getDayBoundsInTimezone tzdb inputDate timezone =
     (case tzdb timezone of
        None \<Rightarrow> Inl (InvalidTimezone timezone)
      | Some offset \<Rightarrow>
          (case formatDate offset inputDate of
             (year, month, day) \<Rightarrow>
               Inr (DateUTC year (month - 1) day 0 0 0 0,
                    DateUTC year (month - 1) day 23 59 59 999)))"


section \<open>Locking (utils/locking.ts)\<close>

datatype ResourceType = RT_table | RT_reservation | RT_timeslot

fun resourceTypeName :: "ResourceType \<Rightarrow> string" where
  "resourceTypeName RT_table = ''table''"
| "resourceTypeName RT_reservation = ''reservation''"
| "resourceTypeName RT_timeslot = ''timeslot''"

record ResourceLock =
  resourceType :: ResourceType
  resourceId :: UUID
  lockedBy :: string
  lockedAt :: ISODateTime
  expiresAt :: ISODateTime

text \<open>The module-level \<open>locks\<close> map, keyed by the composite key string.\<close>

type_synonym Locks = "string \<rightharpoonup> ResourceLock"

text \<open>
  The error strings of a \<open>LockResult\<close>: \<open>Resource is locked by another process until
  <expiresAt>\<close> and \<open>Failed to acquire lock on <type>:<id>: <error>\<close>.
\<close>

datatype LockError =
    ResourceLockedUntil ISODateTime
  | FailedToAcquire ResourceType UUID LockError

definition DEFAULT_LOCK_TIMEOUT_MINUTES :: int where
  "DEFAULT_LOCK_TIMEOUT_MINUTES = 2"

definition getLockKey :: "ResourceType \<Rightarrow> UUID \<Rightarrow> string" where
  "getLockKey rt rid = resourceTypeName rt @ '':'' @ rid"

definition acquireLock ::
  "LocalZone \<Rightarrow> ISODateTime \<Rightarrow> ResourceType \<Rightarrow> UUID \<Rightarrow> string \<Rightarrow> int \<Rightarrow> Locks
     \<Rightarrow> (LockError + ResourceLock) \<times> Locks" where
  "acquireLock zone now rt rid lockOwner timeoutMinutes locks =
     (let key = getLockKey rt rid;
          lock = \<lparr>resourceType = rt, resourceId = rid, lockedBy = lockOwner,
                  lockedAt = now, expiresAt = addMinutes zone now timeoutMinutes\<rparr>
      in case locks key of
           None \<Rightarrow> (Inr lock, locks(key \<mapsto> lock))
         | Some existingLock \<Rightarrow>
             if expiresAt existingLock > now \<and> lockedBy existingLock \<noteq> lockOwner
             then (Inl (ResourceLockedUntil (expiresAt existingLock)), locks)
             else (Inr lock, locks(key \<mapsto> lock)))"

definition releaseLock :: "ResourceType \<Rightarrow> UUID \<Rightarrow> string \<Rightarrow> Locks \<Rightarrow> bool \<times> Locks" where
  "releaseLock rt rid lockOwner locks =
     (let key = getLockKey rt rid
      in case locks key of
           None \<Rightarrow> (True, locks)
         | Some existingLock \<Rightarrow>
             if lockedBy existingLock \<noteq> lockOwner then (False, locks)
             else (True, locks(key := None)))"

definition isLocked :: "ISODateTime \<Rightarrow> ResourceType \<Rightarrow> UUID \<Rightarrow> Locks \<Rightarrow> bool \<times> Locks" where
  "isLocked now rt rid locks =
     (let key = getLockKey rt rid
      in case locks key of
           None \<Rightarrow> (False, locks)
         | Some existingLock \<Rightarrow>
             if expiresAt existingLock \<le> now then (False, locks(key := None))
             else (True, locks))"

text \<open>
  \<open>Array.prototype.sort\<close> is stable; with a comparator that is a total preorder its result
  is the stable insertion sort's. The comparator returns a number, negative or zero when
  the first argument may stay in front.
\<close>

fun insertSorted :: "('a \<Rightarrow> 'a \<Rightarrow> int) \<Rightarrow> 'a \<Rightarrow> 'a list \<Rightarrow> 'a list" where
  "insertSorted cmp x [] = [x]"
| "insertSorted cmp x (y # ys) =
     (if cmp x y \<le> 0 then x # y # ys else y # insertSorted cmp x ys)"

definition sortBy :: "('a \<Rightarrow> 'a \<Rightarrow> int) \<Rightarrow> 'a list \<Rightarrow> 'a list" where
  "sortBy cmp xs = foldr (insertSorted cmp) xs []"

type_synonym Resource = "ResourceType \<times> UUID"

fun releaseAll :: "string \<Rightarrow> ResourceLock list \<Rightarrow> Locks \<Rightarrow> Locks" where
  "releaseAll lockOwner [] locks = locks"
| "releaseAll lockOwner (l # ls) locks =
     releaseAll lockOwner ls (snd (releaseLock (resourceType l) (resourceId l) lockOwner locks))"

text \<open>
  The \<open>for\<close> loop of \<open>acquireMultipleLocks\<close> over the sorted resources, with the
  \<open>acquiredLocks\<close> array as accumulator.
\<close>

fun acquireEach ::
  "LocalZone \<Rightarrow> ISODateTime \<Rightarrow> string \<Rightarrow> int \<Rightarrow> Resource list \<Rightarrow> ResourceLock list \<Rightarrow> Locks
     \<Rightarrow> (LockError + unit) \<times> Locks" where
  "acquireEach zone now lockOwner timeoutMinutes [] acquiredLocks locks = (Inr (), locks)"
| "acquireEach zone now lockOwner timeoutMinutes (resource # rest) acquiredLocks locks =
     (case acquireLock zone now (fst resource) (snd resource) lockOwner timeoutMinutes locks of
        (Inl err, locks') \<Rightarrow>
          (Inl (FailedToAcquire (fst resource) (snd resource) err),
           releaseAll lockOwner acquiredLocks locks')
      | (Inr lock, locks') \<Rightarrow>
          acquireEach zone now lockOwner timeoutMinutes rest (acquiredLocks @ [lock]) locks')"

text \<open>
  \<open>String.prototype.localeCompare\<close> depends on the host's collation: it is the parameter
  \<open>localeCompare\<close>. All clock readings of one call are the one instant \<open>now\<close>.
\<close>

definition sortedResources :: "(string \<Rightarrow> string \<Rightarrow> int) \<Rightarrow> Resource list \<Rightarrow> Resource list" where
  "sortedResources localeCompare resources =
     sortBy (\<lambda>a b. localeCompare (getLockKey (fst a) (snd a)) (getLockKey (fst b) (snd b)))
       resources"

definition acquireMultipleLocks ::
  "LocalZone \<Rightarrow> (string \<Rightarrow> string \<Rightarrow> int) \<Rightarrow> ISODateTime \<Rightarrow> Resource list \<Rightarrow> string \<Rightarrow> int
     \<Rightarrow> Locks \<Rightarrow> (LockError + unit) \<times> Locks" where
  "acquireMultipleLocks zone localeCompare now resources lockOwner timeoutMinutes locks =
     acquireEach zone now lockOwner timeoutMinutes (sortedResources localeCompare resources) []
       locks"

section \<open>The state of the process\<close>

text \<open>
  The four singleton stores, the lock map and the pending \<open>setTimeout\<close> callbacks (due
  instant and table id). Every operation takes the state and returns the new one.
\<close>

record Stores =
  customers :: "Customer Items"
  tables :: "Table Items"
  waiters :: "Waiter Items"
  reservations :: "Reservation Items"
  locks :: Locks
  timers :: "(ISODateTime \<times> UUID) list"

text \<open>
  The codes that end up in \<open>error.code\<close> of a \<open>Result\<close>. When \<open>withLock\<close> cannot acquire
  its lock, the code is the lock manager's message.
\<close>

datatype ErrorCode =
    INVALID_PARTY_SIZE | INVALID_TIME | PAST_TIME | NO_AVAILABILITY | TABLE_NOT_FOUND
  | TABLE_UNAVAILABLE | RESERVATION_NOT_FOUND | CONCURRENT_MODIFICATION | INVALID_TIMEZONE
  | INVALID_STATUS_TRANSITION | INVALID_CUSTOMER_NAME | NO_AVAILABLE_TABLES | SYSTEM_ERROR
  | LockMessage LockError

text \<open>
  \<open>withLock\<close>: \<open>lockOwner\<close> is the \<open>uuidv4()\<close> token. The body either throws an error whose
  message is a code (\<open>Inl\<close>) or returns; the lock is released on both paths.
\<close>

definition withLock ::
  "LocalZone \<Rightarrow> ISODateTime \<Rightarrow> string \<Rightarrow> ResourceType \<Rightarrow> UUID
     \<Rightarrow> (Stores \<Rightarrow> (ErrorCode + 'a) \<times> Stores) \<Rightarrow> Stores \<Rightarrow> (ErrorCode + 'a) \<times> Stores" where
  "withLock zone now lockOwner rt rid fn st =
     (case acquireLock zone now rt rid lockOwner DEFAULT_LOCK_TIMEOUT_MINUTES (locks st) of
        (Inl err, _) \<Rightarrow> (Inl (LockMessage err), st)
      | (Inr _, locks1) \<Rightarrow>
          (case fn (st\<lparr>locks := locks1\<rparr>) of
             (res, st2) \<Rightarrow> (res, st2\<lparr>locks := snd (releaseLock rt rid lockOwner (locks st2))\<rparr>)))"


section \<open>Availability (services/availabilityService.ts)\<close>

record AvailabilitySlot =
  s_tableId :: UUID
  s_tableNumber :: int
  s_tableCapacity :: int
  s_startTime :: ISODateTime
  s_endTime :: ISODateTime
  s_isAvailable :: bool

definition SLOT_DURATION_MINUTES :: int where
  "SLOT_DURATION_MINUTES = 30"

definition notFinished :: "ReservationStatus \<Rightarrow> bool" where
  \<comment> \<open>The filter \<open>status !== CANCELLED && status !== COMPLETED && status !== NO_SHOW\<close>.\<close>
  "notFinished s = (s \<noteq> CANCELLED \<and> s \<noteq> COMPLETED \<and> s \<noteq> NO_SHOW)"

definition isTableAvailable :: "Stores \<Rightarrow> UUID \<Rightarrow> ISODateTime \<Rightarrow> ISODateTime \<Rightarrow> bool" where
  "isTableAvailable st tableId startTime endTime =
     (case getById (tables st) tableId of
        None \<Rightarrow> False
      | Some table \<Rightarrow>
          if t_status table = OUT_OF_SERVICE then False
          else filter (\<lambda>r. r_tableId r = Some tableId \<and> notFinished (r_status r))
                 (findByTimeRange (reservations st) startTime endTime) = [])"

definition slotFor :: "Table \<Rightarrow> ISODateTime \<Rightarrow> ISODateTime \<Rightarrow> AvailabilitySlot" where
  "slotFor table startTime endTime =
     \<lparr>s_tableId = t_id table, s_tableNumber = t_number table,
      s_tableCapacity = t_capacity table, s_startTime = startTime, s_endTime = endTime,
      s_isAvailable = True\<rparr>"

text \<open>The \<open>for (const table of suitableTables)\<close> loop that returns at the first free table.\<close>

fun firstFreeTable ::
  "Stores \<Rightarrow> Table list \<Rightarrow> ISODateTime \<Rightarrow> ISODateTime \<Rightarrow> AvailabilitySlot option" where
  "firstFreeTable st [] startTime endTime = None"
| "firstFreeTable st (table # rest) startTime endTime =
     (if isTableAvailable st (t_id table) startTime endTime
      then Some (slotFor table startTime endTime)
      else firstFreeTable st rest startTime endTime)"

text \<open>
  The \<open>while (checkTime < searchEnd)\<close> loop of \<open>getNextAvailableSlot\<close>. The loop returns
  a slot, or falls through to \<open>data: null\<close> (\<open>Some None\<close>); a run of the loop that never
  ends has no value (\<open>None\<close>).
\<close>

partial_function (option) searchSlots ::
  "LocalZone \<Rightarrow> Stores \<Rightarrow> Table list \<Rightarrow> int \<Rightarrow> ISODateTime \<Rightarrow> ISODateTime
     \<Rightarrow> AvailabilitySlot option option" where
  "searchSlots zone st suitableTables durationMinutes searchEnd checkTime =
     (if checkTime < searchEnd
      then (case firstFreeTable st suitableTables checkTime
                   (addMinutes zone checkTime durationMinutes) of
              Some slot \<Rightarrow> Some (Some slot)
            | None \<Rightarrow>
                searchSlots zone st suitableTables durationMinutes searchEnd
                  (addMinutes zone checkTime SLOT_DURATION_MINUTES))
      else Some None)"

text \<open>
  The arguments of \<open>getNextAvailableSlot\<close> come unvalidated from the query string
  (server.ts): \<open>new Date(fromTime)\<close> of a string that does not parse is the Invalid Date,
  and \<open>parseInt\<close> of a string that is no number is \<open>NaN\<close>. An absent argument (\<open>None\<close>)
  takes its default: the clock reading, and 90 minutes. \<open>toISOString\<close> throws a
  \<open>RangeError\<close> on the Invalid Date, which is what \<open>addMinutes\<close> yields from the Invalid
  Date or from \<open>NaN\<close> minutes.
\<close>

datatype JsError = RangeError

datatype JsDate = Instant ISODateTime | InvalidDate

datatype JsNumber = Number int | NaN

definition getNextAvailableSlot ::
  "LocalZone \<Rightarrow> ISODateTime \<Rightarrow> Stores \<Rightarrow> int \<Rightarrow> JsDate option \<Rightarrow> JsNumber option
     \<Rightarrow> (JsError + AvailabilitySlot option) option" where
  \<comment> \<open>A returned \<open>Result\<close> always has \<open>success: true\<close>; its \<open>data\<close> is a slot or \<open>null\<close>.
      \<open>Some (Inl RangeError)\<close> is the uncaught exception, \<open>None\<close> a call that never returns.\<close>
  "getNextAvailableSlot zone clock st partySize fromTime durationMinutes =
     (let suitableTables =
            filter (\<lambda>t. t_status t \<noteq> OUT_OF_SERVICE) (findByCapacity (tables st) partySize)
      in if suitableTables = [] then Some (Inr None)
         else (case (case fromTime of None \<Rightarrow> Instant clock | Some date \<Rightarrow> date) of
                 InvalidDate \<Rightarrow> Some (Inl RangeError)
               | Instant now \<Rightarrow>
                   (case (case durationMinutes of
                            None \<Rightarrow> Number DEFAULT_DURATION_MINUTES
                          | Some n \<Rightarrow> n) of
                      NaN \<Rightarrow> Some (Inl RangeError)
                    | Number duration \<Rightarrow>
                        (case firstFreeTable st suitableTables now
                                (addMinutes zone now duration) of
                           Some slot \<Rightarrow> Some (Inr (Some slot))
                         | None \<Rightarrow>
                             map_option Inr
                               (searchSlots zone st suitableTables duration
                                  (addMinutes zone now (24 * 60))
                                  (addMinutes zone now SLOT_DURATION_MINUTES))))))"

section \<open>Reservations (services/reservationService.ts)\<close>

record CreateReservationRequest =
  cr_customerName :: JsString
  cr_customerPhone :: "string option"
  cr_customerEmail :: "string option"
  cr_partySize :: int
  cr_startTime :: "ISODateTime option"
  cr_timezone :: "string option"
  cr_durationMinutes :: "int option"
  cr_notes :: "string option"
  cr_preferredTableId :: "UUID option"

record AvailabilityRequest =
  ar_startTime :: ISODateTime
  ar_partySize :: int
  ar_timezone :: "string option"
  ar_durationMinutes :: "int option"

text \<open>
  Truthiness of an optional string and of an optional number, and \<open>x || default\<close>.
  In a request, a start time that is missing or does not parse is \<open>None\<close>.
\<close>

definition orString :: "string option \<Rightarrow> string \<Rightarrow> string" where
  "orString x d = (case x of None \<Rightarrow> d | Some s \<Rightarrow> if s = [] then d else s)"

definition orNumber :: "int option \<Rightarrow> int \<Rightarrow> int" where
  "orNumber x d = (case x of None \<Rightarrow> d | Some n \<Rightarrow> if n = 0 then d else n)"

text \<open>
  \<open>String.prototype.trim\<close> removes the white space and line terminator code units of the
  language from both ends: tab, line feed, vertical tab, form feed, carriage return,
  space, no-break space, the space separators of Unicode, the line and paragraph
  separators, and the byte order mark.
\<close>

definition isWhiteSpace :: "nat \<Rightarrow> bool" where
  "isWhiteSpace c =
     ((0x09 \<le> c \<and> c \<le> 0x0D) \<or> c = 0x20 \<or> c = 0xA0 \<or> c = 0x1680 \<or>
      (0x2000 \<le> c \<and> c \<le> 0x200A) \<or> c = 0x2028 \<or> c = 0x2029 \<or> c = 0x202F \<or>
      c = 0x205F \<or> c = 0x3000 \<or> c = 0xFEFF)"

definition trim :: "JsString \<Rightarrow> JsString" where
  "trim s = rev (dropWhile isWhiteSpace (rev (dropWhile isWhiteSpace s)))"

definition validateCreateRequest ::
  "TzDb \<Rightarrow> ISODateTime \<Rightarrow> CreateReservationRequest \<Rightarrow> ErrorCode + unit" where
  "validateCreateRequest tzdb now request =
     (if cr_partySize request = 0 \<or> cr_partySize request < 1 then Inl INVALID_PARTY_SIZE
      else if cr_partySize request > 20 then Inl INVALID_PARTY_SIZE
      else if cr_customerName request = [] \<or> trim (cr_customerName request) = []
        then Inl INVALID_CUSTOMER_NAME
      else (case cr_startTime request of
              None \<Rightarrow> Inl INVALID_TIME
            | Some startTime \<Rightarrow>
                if (case cr_timezone request of
                      None \<Rightarrow> False
                    | Some tz \<Rightarrow> tz \<noteq> [] \<and> \<not> isValidTimezone tzdb tz)
                then Inl INVALID_TIMEZONE
                else if \<not> isFutureDateTime now startTime then Inl PAST_TIME
                else Inr ()))"

definition findAvailableTables ::
  "Stores \<Rightarrow> ISODateTime \<Rightarrow> ISODateTime \<Rightarrow> int \<Rightarrow> UUID option \<Rightarrow> Table list" where
  "findAvailableTables st startTime endTime partySize excludeReservationId =
     (let suitableTables = findByCapacity (tables st) partySize;
          activeTables = filter (\<lambda>t. t_status t \<noteq> OUT_OF_SERVICE) suitableTables;
          overlappingReservations =
            filter (\<lambda>r. notFinished (r_status r) \<and> Some (r_id r) \<noteq> excludeReservationId)
              (findByTimeRange (reservations st) startTime endTime);
          availableTables =
            filter (\<lambda>table. filter (\<lambda>r. r_tableId r = Some (t_id table)) overlappingReservations = [])
              activeTables
      in sortBy (\<lambda>a b. t_capacity a - t_capacity b) availableTables)"

definition checkAvailability ::
  "LocalZone \<Rightarrow> TzDb \<Rightarrow> Stores \<Rightarrow> AvailabilityRequest \<Rightarrow> ErrorCode + AvailabilitySlot list" where
  "checkAvailability zone tzdb st request =
     (let timezone = orString (ar_timezone request) DEFAULT_TIMEZONE
      in if \<not> isValidTimezone tzdb timezone then Inl INVALID_TIMEZONE
         else (let duration = orNumber (ar_durationMinutes request) DEFAULT_DURATION_MINUTES;
                   endTime = calculateEndTime zone (ar_startTime request) duration;
                   availableTables =
                     findAvailableTables st (ar_startTime request) endTime (ar_partySize request) None
               in Inr (map (\<lambda>table. slotFor table (ar_startTime request) endTime) availableTables)))"


text \<open>
  Template strings over instants: \<open>Date.now()\<close> prints as a decimal number. A request's
  start time, represented here by its instant, is printed the same way in the lock id
  \<open>timeslot:<startTime>\<close>, so that equal start times give equal lock ids.
\<close>

fun decimal :: "nat \<Rightarrow> string" where
  "decimal n =
     (if n < 10 then [''0123456789'' ! n]
      else decimal (n div 10) @ [''0123456789'' ! (n mod 10)])"

declare decimal.simps [simp del]

definition showInstant :: "ISODateTime \<Rightarrow> string" where
  "showInstant t = (if t < 0 then ''-'' @ decimal (nat (- t)) else decimal (nat t))"

text \<open>
  The body that \<open>createReservation\<close> runs under the lock. \<open>throw new Error(code)\<close> is
  \<open>Inl code\<close>; both throws come before any mutation. \<open>customerId\<close> and \<open>reservationId\<close>
  are the \<open>uuidv4()\<close> values of the two \<open>create\<close> calls.
\<close>

definition selectTable ::
  "Stores \<Rightarrow> CreateReservationRequest \<Rightarrow> ISODateTime \<Rightarrow> ISODateTime \<Rightarrow> ErrorCode + Table" where
  "selectTable st request startTime endTime =
     (let preferredId = orString (cr_preferredTableId request) [];
          chosen =
            (if preferredId \<noteq> []
             then (case getById (tables st) preferredId of
                     None \<Rightarrow> Inl TABLE_NOT_FOUND
                   | Some preferred \<Rightarrow>
                       (case find (\<lambda>t. t_id t = preferredId)
                               (findAvailableTables st startTime endTime (cr_partySize request) None) of
                          Some _ \<Rightarrow> Inr (Some preferred)
                        | None \<Rightarrow> Inr None))
             else Inr None)
      in case chosen of
           Inl e \<Rightarrow> Inl e
         | Inr (Some selectedTable) \<Rightarrow> Inr selectedTable
         | Inr None \<Rightarrow>
             (case findAvailableTables st startTime endTime (cr_partySize request) None of
                [] \<Rightarrow> Inl NO_AVAILABILITY
              | selectedTable # _ \<Rightarrow> Inr selectedTable))"

definition findOrCreateCustomer ::
  "ISODateTime \<Rightarrow> UUID \<Rightarrow> CreateReservationRequest \<Rightarrow> Customer Items
     \<Rightarrow> Customer \<times> Customer Items" where
  "findOrCreateCustomer now customerId request items =
     (case findByPhone items (orString (cr_customerPhone request) []) of
        Some customer \<Rightarrow> (customer, items)
      | None \<Rightarrow>
          (case findByEmail items (orString (cr_customerEmail request) []) of
             Some customer \<Rightarrow> (customer, items)
           | None \<Rightarrow>
               customerStore_create now customerId
                 \<lparr>c_id = [], c_name = cr_customerName request,
                  c_phone = cr_customerPhone request, c_email = cr_customerEmail request,
                  c_notes = None, c_createdAt = now, c_updatedAt = now\<rparr> items))"

definition createReservationBody ::
  "ISODateTime \<Rightarrow> UUID \<Rightarrow> UUID \<Rightarrow> CreateReservationRequest \<Rightarrow> ISODateTime \<Rightarrow> ISODateTime
     \<Rightarrow> string \<Rightarrow> Stores \<Rightarrow> (ErrorCode + Reservation) \<times> Stores" where
  "createReservationBody now customerId reservationId request startTime endTime timezone st =
     (case selectTable st request startTime endTime of
        Inl e \<Rightarrow> (Inl e, st)
      | Inr selectedTable \<Rightarrow>
          (case findOrCreateCustomer now customerId request (customers st) of
             (customer, customers') \<Rightarrow>
               (let waiter = findWithLeastTables (waiters st);
                    waiters' =
                      (case waiter of
                         None \<Rightarrow> waiters st
                       | Some w \<Rightarrow> snd (assignTable now (w_id w) (t_id selectedTable) (waiters st)));
                    created =
                      reservationStore_create now reservationId
                        \<lparr>r_id = [], r_customerId = c_id customer,
                         r_customerName = cr_customerName request,
                         r_partySize = cr_partySize request,
                         r_tableId = Some (t_id selectedTable),
                         r_waiterId = map_option w_id waiter,
                         r_startTime = startTime, r_endTime = endTime,
                         r_status = CONFIRMED, r_isWalkIn = False, r_timezone = timezone,
                         r_notes = cr_notes request, r_createdAt = now, r_updatedAt = now,
                         r_version = 1\<rparr>
                        (reservations st);
                    tables' =
                      snd (tableStore_update now (t_id selectedTable)
                             (emptyTablePatch\<lparr>tp_status := Some RESERVED\<rparr>) (tables st))
                in (Inr (fst created),
                    st\<lparr>customers := customers', waiters := waiters',
                       reservations := snd created, tables := tables'\<rparr>))))"

definition createReservation ::
  "LocalZone \<Rightarrow> TzDb \<Rightarrow> ISODateTime \<Rightarrow> string \<Rightarrow> UUID \<Rightarrow> UUID \<Rightarrow> CreateReservationRequest
     \<Rightarrow> Stores \<Rightarrow> (ErrorCode + Reservation) \<times> Stores" where
  "createReservation zone tzdb now lockOwner customerId reservationId request st =
     (case validateCreateRequest tzdb now request of
        Inl e \<Rightarrow> (Inl e, st)
      | Inr _ \<Rightarrow>
          (case cr_startTime request of
             None \<Rightarrow> (Inl INVALID_TIME, st)
           | Some startTime \<Rightarrow>
               (let timezone = orString (cr_timezone request) DEFAULT_TIMEZONE;
                    duration = orNumber (cr_durationMinutes request) DEFAULT_DURATION_MINUTES;
                    endTime = calculateEndTime zone startTime duration;
                    lockId = ''timeslot:'' @ showInstant startTime
                in withLock zone now lockOwner RT_timeslot lockId
                     (createReservationBody now customerId reservationId request
                        startTime endTime timezone) st)))"

definition isValidStatusTransition :: "ReservationStatus \<Rightarrow> ReservationStatus \<Rightarrow> bool" where
  "isValidStatusTransition from to =
     (to \<in> set (case from of
                  PENDING \<Rightarrow> [CONFIRMED, CANCELLED]
                | CONFIRMED \<Rightarrow> [SEATED, CANCELLED, NO_SHOW]
                | SEATED \<Rightarrow> [COMPLETED]
                | COMPLETED \<Rightarrow> []
                | CANCELLED \<Rightarrow> []
                | NO_SHOW \<Rightarrow> []))"

text \<open>
  \<open>updateReservationStatus\<close>. The \<open>setTimeout\<close> of 5000 ms is recorded in \<open>timers\<close>; the
  callback runs later, in \<open>runTimers\<close>.
\<close>

definition updateReservationStatus ::
  "ISODateTime \<Rightarrow> UUID \<Rightarrow> ReservationStatus \<Rightarrow> int \<Rightarrow> Stores
     \<Rightarrow> (ErrorCode + Reservation) \<times> Stores" where
  "updateReservationStatus now ident newStatus expectedVersion st =
     (case getById (reservations st) ident of
        None \<Rightarrow> (Inl RESERVATION_NOT_FOUND, st)
      | Some existing \<Rightarrow>
          if \<not> isValidStatusTransition (r_status existing) newStatus
          then (Inl INVALID_STATUS_TRANSITION, st)
          else (case updateWithVersion now ident
                       (emptyReservationPatch\<lparr>p_status := Some newStatus\<rparr>)
                       expectedVersion (reservations st) of
                  (None, _) \<Rightarrow> (Inl CONCURRENT_MODIFICATION, st)
                | (Some updated, reservations') \<Rightarrow>
                    (let st1 = st\<lparr>reservations := reservations'\<rparr>;
                         tableId = orString (r_tableId updated) []
                     in if tableId \<noteq> []
                        then (if newStatus = SEATED
                              then (Inr updated,
                                    st1\<lparr>tables := snd (tableStore_update now tableId
                                            (emptyTablePatch\<lparr>tp_status := Some OCCUPIED\<rparr>)
                                            (tables st1))\<rparr>)
                              else if newStatus = COMPLETED \<or> newStatus = CANCELLED
                                        \<or> newStatus = NO_SHOW
                              then (Inr updated,
                                    st1\<lparr>tables := snd (tableStore_update now tableId
                                            (emptyTablePatch\<lparr>tp_status := Some CLEANING\<rparr>)
                                            (tables st1)),
                                        timers := timers st1 @ [(now + 5000, tableId)]\<rparr>)
                              else (Inr updated, st1))
                        else (Inr updated, st1))))"

definition cancelReservation ::
  "ISODateTime \<Rightarrow> UUID \<Rightarrow> int \<Rightarrow> Stores \<Rightarrow> (ErrorCode + Reservation) \<times> Stores" where
  "cancelReservation now ident expectedVersion st =
     updateReservationStatus now ident CANCELLED expectedVersion st"

text \<open>
  The timer callbacks that are due at \<open>now\<close> run in the order they were scheduled; each
  one is \<open>tableStore.update(tableId, {status: AVAILABLE})\<close>.
\<close>

fun fireTimers :: "ISODateTime \<Rightarrow> (ISODateTime \<times> UUID) list \<Rightarrow> Table Items \<Rightarrow> Table Items" where
  "fireTimers now [] items = items"
| "fireTimers now ((due, tableId) # rest) items =
     fireTimers now rest
       (if due \<le> now
        then snd (tableStore_update now tableId
                    (emptyTablePatch\<lparr>tp_status := Some AVAILABLE\<rparr>) items)
        else items)"

definition runTimers :: "ISODateTime \<Rightarrow> Stores \<Rightarrow> Stores" where
  "runTimers now st =
     st\<lparr>tables := fireTimers now (timers st) (tables st),
        timers := filter (\<lambda>(due, tableId). \<not> due \<le> now) (timers st)\<rparr>"


section \<open>Walk-ins (services/walkInService.ts)\<close>

record WalkInRequest =
  wr_customerName :: JsString
  wr_partySize :: int
  wr_notes :: "string option"

record WalkInResult =
  wi_reservation :: Reservation
  wi_table :: "Table option"
  wi_waiter :: "Waiter option"

definition validateWalkInRequest :: "WalkInRequest \<Rightarrow> ErrorCode + unit" where
  "validateWalkInRequest request =
     (if wr_customerName request = [] \<or> trim (wr_customerName request) = []
      then Inl INVALID_CUSTOMER_NAME
      else if wr_partySize request = 0 \<or> wr_partySize request < 1 then Inl INVALID_PARTY_SIZE
      else if wr_partySize request > 20 then Inl INVALID_PARTY_SIZE
      else Inr ())"

definition findBestTableForWalkIn :: "Stores \<Rightarrow> int \<Rightarrow> Table option" where
  "findBestTableForWalkIn st partySize =
     (let availableTables = findAvailableForPartySize (tables st) partySize
      in if availableTables = [] then None
         else (case sortBy (\<lambda>a b.
                      (let aExact = (if t_capacity a = partySize then 0 else 1);
                           bExact = (if t_capacity b = partySize then 0 else 1)
                       in if aExact \<noteq> bExact then aExact - bExact
                          else t_capacity a - t_capacity b))
                    availableTables of
                 [] \<Rightarrow> None
               | best # _ \<Rightarrow> Some best))"

definition assignWaiterToTable ::
  "ISODateTime \<Rightarrow> UUID \<Rightarrow> Waiter Items \<Rightarrow> Waiter option \<times> Waiter Items" where
  "assignWaiterToTable now tableId items =
     (case findWithLeastTables items of
        None \<Rightarrow> (None, items)
      | Some waiter \<Rightarrow>
          (let items' = snd (assignTable now (w_id waiter) tableId items)
           in (getById items' (w_id waiter), items')))"

definition handleWalkInBody ::
  "LocalZone \<Rightarrow> ISODateTime \<Rightarrow> UUID \<Rightarrow> UUID \<Rightarrow> WalkInRequest \<Rightarrow> Stores
     \<Rightarrow> (ErrorCode + WalkInResult) \<times> Stores" where
  "handleWalkInBody zone now customerId reservationId request st =
     (case findBestTableForWalkIn st (wr_partySize request) of
        None \<Rightarrow> (Inl NO_AVAILABLE_TABLES, st)
      | Some table \<Rightarrow>
          (let customer =
                 customerStore_create now customerId
                   \<lparr>c_id = [], c_name = wr_customerName request, c_phone = None,
                    c_email = None, c_notes = Some ''Walk-in customer'',
                    c_createdAt = now, c_updatedAt = now\<rparr> (customers st);
               startTime = now;
               endTime = calculateEndTime zone startTime DEFAULT_DURATION_MINUTES;
               assigned = assignWaiterToTable now (t_id table) (waiters st);
               created =
                 reservationStore_create now reservationId
                   \<lparr>r_id = [], r_customerId = c_id (fst customer),
                    r_customerName = wr_customerName request,
                    r_partySize = wr_partySize request,
                    r_tableId = Some (t_id table),
                    r_waiterId = map_option w_id (fst assigned),
                    r_startTime = startTime, r_endTime = endTime,
                    r_status = SEATED, r_isWalkIn = True, r_timezone = DEFAULT_TIMEZONE,
                    r_notes = Some (orString (wr_notes request) ''Walk-in''),
                    r_createdAt = now, r_updatedAt = now, r_version = 1\<rparr>
                   (reservations st);
               tables' =
                 snd (tableStore_update now (t_id table)
                        (emptyTablePatch\<lparr>tp_status := Some OCCUPIED\<rparr>) (tables st))
           in (Inr \<lparr>wi_reservation = fst created, wi_table = getById tables' (t_id table),
                    wi_waiter = fst assigned\<rparr>,
               st\<lparr>customers := snd customer, waiters := snd assigned,
                  reservations := snd created, tables := tables'\<rparr>)))"

definition handleWalkIn ::
  "LocalZone \<Rightarrow> ISODateTime \<Rightarrow> string \<Rightarrow> UUID \<Rightarrow> UUID \<Rightarrow> WalkInRequest \<Rightarrow> Stores
     \<Rightarrow> (ErrorCode + WalkInResult) \<times> Stores" where
  "handleWalkIn zone now lockOwner customerId reservationId request st =
     (case validateWalkInRequest request of
        Inl e \<Rightarrow> (Inl e, st)
      | Inr _ \<Rightarrow>
          withLock zone now lockOwner RT_table (''walkin:'' @ showInstant now)
            (handleWalkInBody zone now customerId reservationId request) st)"

text \<open>
  The \<open>data\<close> of \<open>getEstimatedWaitTime\<close>'s result, which always has \<open>success: true\<close>. The
  message is one of four texts, the last one carrying the number of minutes.
\<close>

datatype WaitMessage = TablesAvailableNow | UnableToEstimate | ShortWaitExpected | EstimatedWait int

record WaitTime =
  minutes :: int
  message :: WaitMessage

definition getEstimatedWaitTime :: "ISODateTime \<Rightarrow> Stores \<Rightarrow> int \<Rightarrow> WaitTime" where
  "getEstimatedWaitTime now st partySize =
     (if findAvailableForPartySize (tables st) partySize \<noteq> []
      then \<lparr>minutes = 0, message = TablesAvailableNow\<rparr>
      else (case sortBy (\<lambda>a b. r_endTime a - r_endTime b)
                   (filter (\<lambda>r. case getById (tables st) (orString (r_tableId r) []) of
                                  None \<Rightarrow> False
                                | Some table \<Rightarrow> t_capacity table \<ge> partySize)
                      (reservation_findByStatus (reservations st) SEATED)) of
              [] \<Rightarrow> \<lparr>minutes = - 1, message = UnableToEstimate\<rparr>
            | nextAvailable # _ \<Rightarrow>
                (let waitMinutes = max 0 (- ((now - r_endTime nextAvailable) div 60000))
                 in \<lparr>minutes = waitMinutes,
                     message = (if waitMinutes \<le> 15 then ShortWaitExpected
                                else EstimatedWait waitMinutes)\<rparr>)))"

section \<open>The specification's transition table\<close>

text \<open>
  The table of the specification, written from its words: PENDING to CONFIRMED or
  CANCELLED; CONFIRMED to SEATED, CANCELLED or NO_SHOW; SEATED to COMPLETED; nothing
  from COMPLETED, CANCELLED or NO_SHOW.
\<close>

definition allowedTransitions :: "(ReservationStatus \<times> ReservationStatus) set" where
  "allowedTransitions =
     {(PENDING, CONFIRMED), (PENDING, CANCELLED),
      (CONFIRMED, SEATED), (CONFIRMED, CANCELLED), (CONFIRMED, NO_SHOW),
      (SEATED, COMPLETED)}"

section \<open>Example data\<close>

text \<open>
  A zone at a fixed offset from UTC (in milliseconds), where no local time is repeated
  or skipped, and UTC itself. The names of the examples, as code units: \<open>Ann\<close>, \<open>Bob\<close>
  and \<open>Cy\<close>.
\<close>

definition fixedOffsetZone :: "int \<Rightarrow> LocalZone" where
  "fixedOffsetZone offset = \<lparr>localTime = (\<lambda>t. t + offset), utc = (\<lambda>l. l - offset)\<rparr>"

definition utcZone :: LocalZone where
  "utcZone = fixedOffsetZone 0"

definition nameAnn :: JsString where
  "nameAnn = [0x41, 0x6E, 0x6E]"

definition nameBob :: JsString where
  "nameBob = [0x42, 0x6F, 0x62]"

definition nameCy :: JsString where
  "nameCy = [0x43, 0x79]"

definition exampleReservation :: Reservation where
  "exampleReservation =
     \<lparr>r_id = ''r1'', r_customerId = ''c1'', r_customerName = nameAnn, r_partySize = 2,
      r_tableId = Some ''t1'', r_waiterId = None, r_startTime = 7200000,
      r_endTime = 12600000, r_status = CONFIRMED, r_isWalkIn = False, r_timezone = ''UTC'',
      r_notes = None, r_createdAt = 1000, r_updatedAt = 1000, r_version = 1\<rparr>"

definition exampleTable :: Table where
  "exampleTable =
     \<lparr>t_id = ''t1'', t_number = 1, t_capacity = 2, t_status = RESERVED, t_section = Some ''Main'',
      t_createdAt = 0, t_updatedAt = 1000\<rparr>"

definition exampleStores :: Stores where
  "exampleStores =
     \<lparr>customers = [], tables = [(''t1'', exampleTable)], waiters = [],
      reservations = [(''r1'', exampleReservation)], locks = Map.empty, timers = []\<rparr>"

definition examplePatch :: ReservationPatch where
  "examplePatch =
     emptyReservationPatch\<lparr>p_id := Some ''other'', p_createdAt := Some 0,
                           p_status := Some SEATED\<rparr>"

definition exampleLock :: ResourceLock where
  "exampleLock =
     \<lparr>resourceType = RT_table, resourceId = ''t1'', lockedBy = ''owner-1'', lockedAt = 0,
      expiresAt = 120000\<rparr>"

section \<open>Notions used to state the lock theorems\<close>

text \<open>
  A key is held by another owner when it has a lock that is still valid and whose owner
  is not the caller; \<open>newLock\<close> is the lock record that \<open>acquireLock\<close> builds.
\<close>

definition heldByOther :: "ISODateTime \<Rightarrow> string \<Rightarrow> Locks \<Rightarrow> string \<Rightarrow> bool" where
  "heldByOther now lockOwner lockMap key =
     (case lockMap key of
        None \<Rightarrow> False
      | Some existing \<Rightarrow> expiresAt existing > now \<and> lockedBy existing \<noteq> lockOwner)"

definition newLock ::
  "LocalZone \<Rightarrow> ISODateTime \<Rightarrow> string \<Rightarrow> int \<Rightarrow> Resource \<Rightarrow> ResourceLock" where
  "newLock zone now lockOwner timeoutMinutes resource =
     \<lparr>resourceType = fst resource, resourceId = snd resource, lockedBy = lockOwner,
      lockedAt = now, expiresAt = addMinutes zone now timeoutMinutes\<rparr>"

definition keyOf :: "Resource \<Rightarrow> string" where
  "keyOf resource = getLockKey (fst resource) (snd resource)"

definition lockKey :: "ResourceLock \<Rightarrow> string" where
  "lockKey l = getLockKey (resourceType l) (resourceId l)"

text \<open>An example collation, by character code, and an example lock map.\<close>

fun compareStrings :: "string \<Rightarrow> string \<Rightarrow> int" where
  "compareStrings [] [] = 0"
| "compareStrings [] (y # ys) = - 1"
| "compareStrings (x # xs) [] = 1"
| "compareStrings (x # xs) (y # ys) =
     (if (of_char x :: nat) < of_char y then - 1
      else if (of_char y :: nat) < of_char x then 1
      else compareStrings xs ys)"

definition twoLocks :: Locks where
  "twoLocks =
     [getLockKey RT_table ''a'' \<mapsto>
        \<lparr>resourceType = RT_table, resourceId = ''a'', lockedBy = ''owner-1'', lockedAt = 0,
         expiresAt = 120000\<rparr>,
      getLockKey RT_table ''b'' \<mapsto>
        \<lparr>resourceType = RT_table, resourceId = ''b'', lockedBy = ''owner-2'', lockedAt = 0,
         expiresAt = 120000\<rparr>]"


section \<open>The specification's forward search\<close>

text \<open>
  The search of the specification, written from its words: probe the start instant
  first, then step forward by the slot granularity of 30 minutes, staying strictly
  inside a 24 hour horizon (48 probes in all), and return the first instant and table
  found free, or no slot. A slot lasts the duration, in minutes of 60000 ms.
\<close>

fun firstProbe :: "(ISODateTime \<Rightarrow> 'a option) \<Rightarrow> ISODateTime list \<Rightarrow> 'a option" where
  "firstProbe f [] = None"
| "firstProbe f (t # ts) = (case f t of Some slot \<Rightarrow> Some slot | None \<Rightarrow> firstProbe f ts)"

definition probeInstants :: "ISODateTime \<Rightarrow> ISODateTime list" where
  "probeInstants fromTime = map (\<lambda>k. fromTime + int k * 1800000) [0..<48]"

definition findNextAvailable ::
  "Stores \<Rightarrow> int \<Rightarrow> ISODateTime \<Rightarrow> int \<Rightarrow> AvailabilitySlot option" where
  "findNextAvailable st partySize fromTime durationMinutes =
     (let suitableTables =
            filter (\<lambda>t. t_capacity t \<ge> partySize \<and> t_status t \<noteq> OUT_OF_SERVICE)
              (getAll (tables st))
      in if suitableTables = [] then None
         else firstProbe
                (\<lambda>t. firstFreeTable st suitableTables t (t + durationMinutes * 60000))
                (probeInstants fromTime))"


text \<open>
  A zone is regular when converting a local time to an instant and back never yields an
  earlier local time (a skipped local time comes back later), and when the local time
  is at most \<open>bound\<close> milliseconds ahead of UTC.
\<close>

definition regularZone :: "LocalZone \<Rightarrow> int \<Rightarrow> bool" where
  "regularZone zone bound =
     ((\<forall>l. l \<le> localTime zone (utc zone l)) \<and> (\<forall>t. localTime zone t \<le> t + bound))"

text \<open>
  The zone America/New_York around the end of daylight saving time on 2024-11-03: four
  hours behind UTC before 06:00:00Z (the instant 1730613600000), five hours from then
  on. The local times from 01:00 to 02:00 of that day occur twice, and the host takes
  the first occurrence. The example store has the one table of capacity 2, booked from
  03:00:00Z of that day until the given instant.
\<close>

definition newYorkZone :: LocalZone where
  "newYorkZone =
     \<lparr>localTime = (\<lambda>t. if t < 1730613600000 then t - 14400000 else t - 18000000),
      utc = (\<lambda>l. if l + 14400000 < 1730613600000 then l + 14400000 else l + 18000000)\<rparr>"

definition bookedUntil :: "ISODateTime \<Rightarrow> Stores" where
  "bookedUntil endTime =
     \<lparr>customers = [], tables = [(''t1'', exampleTable)], waiters = [],
      reservations =
        [(''r1'', exampleReservation\<lparr>r_startTime := 1730602800000, r_endTime := endTime\<rparr>)],
      locks = Map.empty, timers = []\<rparr>"


section \<open>Notions used to state the wait time theorem\<close>

text \<open>
  A table is available now for a party when its status is AVAILABLE and its capacity
  suffices; the candidates are the SEATED reservations whose table exists and has the
  capacity.
\<close>

definition availableNow :: "Stores \<Rightarrow> int \<Rightarrow> bool" where
  "availableNow st partySize =
     (\<exists>t \<in> set (getAll (tables st)). t_status t = AVAILABLE \<and> t_capacity t \<ge> partySize)"

definition seatedCandidates :: "Stores \<Rightarrow> int \<Rightarrow> Reservation list" where
  "seatedCandidates st partySize =
     filter (\<lambda>r. r_status r = SEATED \<and>
                 (case getById (tables st) (orString (r_tableId r) []) of
                    None \<Rightarrow> False
                  | Some table \<Rightarrow> t_capacity table \<ge> partySize))
       (getAll (reservations st))"


definition seatedStores :: Stores where
  "seatedStores =
     \<lparr>customers = [],
      tables = [(''t1'', exampleTable\<lparr>t_status := OCCUPIED\<rparr>)],
      waiters = [],
      reservations = [(''r1'', exampleReservation\<lparr>r_status := SEATED\<rparr>)],
      locks = Map.empty, timers = []\<rparr>"

definition freeStores :: Stores where
  "freeStores =
     \<lparr>customers = [],
      tables = [(''t1'', exampleTable\<lparr>t_status := AVAILABLE\<rparr>)],
      waiters = [], reservations = [], locks = Map.empty, timers = []\<rparr>"

section \<open>Notions and examples for the time zone theorems\<close>

text \<open>
  An example time zone database: UTC, and Asia/Tokyo at nine hours east of UTC all year.
\<close>

definition exampleTzDb :: TzDb where
  "exampleTzDb name =
     (if name = ''UTC'' then Some (\<lambda>t. 0)
      else if name = ''Asia/Tokyo'' then Some (\<lambda>t. 32400000)
      else None)"

text \<open>
  The specification's start of the day: the instant \<open>m\<close> is the local midnight that opens
  the calendar day of the instant \<open>t\<close> in the zone when the local time at \<open>m\<close> is 00:00
  and the local day of \<open>m\<close> is that of \<open>t\<close>. An instant is within the bounds of a day
  when it is neither before the start nor after the end.
\<close>

definition withinBounds :: "ISODateTime \<Rightarrow> TzError + (ISODateTime \<times> ISODateTime) \<Rightarrow> bool" where
  "withinBounds t bounds =
     (case bounds of Inl _ \<Rightarrow> False | Inr (start, end') \<Rightarrow> start \<le> t \<and> t \<le> end')"

definition isLocalDayStart :: "(ISODateTime \<Rightarrow> int) \<Rightarrow> ISODateTime \<Rightarrow> ISODateTime \<Rightarrow> bool" where
  "isLocalDayStart offset t m =
     ((m + offset m) mod 86400000 = 0 \<and>
      (m + offset m) div 86400000 = (t + offset t) div 86400000)"

section \<open>The booking invariant and a run of the system\<close>

text \<open>
  Two reservations conflict when both are active (not cancelled, completed or no-show),
  both are on the same table, and their half-open intervals overlap. The invariant of
  the specification: no two reservations in the store conflict.
\<close>

definition conflicting :: "Reservation \<Rightarrow> Reservation \<Rightarrow> bool" where
  "conflicting a b =
     (notFinished (r_status a) \<and> notFinished (r_status b) \<and>
      r_tableId a \<noteq> None \<and> r_tableId a = r_tableId b \<and>
      doTimeRangesOverlap (r_startTime a) (r_endTime a) (r_startTime b) (r_endTime b))"

fun noConflicts :: "Reservation list \<Rightarrow> bool" where
  "noConflicts [] = True"
| "noConflicts (r # rs) = (list_all (\<lambda>r'. \<not> conflicting r r') rs \<and> noConflicts rs)"

definition noDoubleBooking :: "Stores \<Rightarrow> bool" where
  "noDoubleBooking st = noConflicts (getAll (reservations st))"

text \<open>
  A run, in a process whose zone is UTC, from one free table of capacity 2: two
  bookings back to back on that table (01:00 to 02:30 and 02:30 to 04:00 after the
  epoch), the first one cancelled, the 5 second timer of the cancellation fired, and
  then a walk-in party of 2 at 02:00.
\<close>

definition requestAt :: "JsString \<Rightarrow> ISODateTime \<Rightarrow> CreateReservationRequest" where
  "requestAt name startTime =
     \<lparr>cr_customerName = name, cr_customerPhone = None, cr_customerEmail = None,
      cr_partySize = 2, cr_startTime = Some startTime, cr_timezone = None,
      cr_durationMinutes = None, cr_notes = None, cr_preferredTableId = None\<rparr>"

definition afterFirstBooking :: Stores where
  "afterFirstBooking =
     snd (createReservation utcZone exampleTzDb 1000 ''o1'' ''c1'' ''rA''
            (requestAt nameAnn 3600000) freeStores)"

definition afterSecondBooking :: Stores where
  "afterSecondBooking =
     snd (createReservation utcZone exampleTzDb 2000 ''o2'' ''c2'' ''rB''
            (requestAt nameBob 9000000) afterFirstBooking)"

definition afterCancel :: Stores where
  "afterCancel = snd (updateReservationStatus 3000 ''rA'' CANCELLED 1 afterSecondBooking)"

definition afterGrace :: Stores where
  "afterGrace = runTimers 8000 afterCancel"

definition walkInAttempt :: "(ErrorCode + WalkInResult) \<times> Stores" where
  "walkInAttempt =
     handleWalkIn utcZone 7200000 ''o3'' ''c3'' ''rW''
       \<lparr>wr_customerName = nameCy, wr_partySize = 2, wr_notes = None\<rparr> afterGrace"

definition summary :: "Reservation \<Rightarrow> UUID \<times> UUID option \<times> ReservationStatus \<times> ISODateTime \<times> ISODateTime" where
  "summary r = (r_id r, r_tableId r, r_status r, r_startTime r, r_endTime r)"

text \<open>Every table is stored under its own id, as \<open>create\<close> and \<open>update\<close> keep it.\<close>

definition keyedById :: "Table Items \<Rightarrow> bool" where
  "keyedById items = list_all (\<lambda>(k, t). t_id t = k) items"

section \<open>Notions used to reason about the calendar\<close>

text \<open>
  Within a 400 year era that starts on the first of March: the number of days before
  the year \<open>y\<close> of the era, the estimate whose quotient by 365 is the year of a day, and
  the check that the estimate is right at the first and the last day of each year.
\<close>

definition daysBeforeYear :: "int \<Rightarrow> int" where
  "daysBeforeYear y = 365 * y + y div 4 - y div 100"

definition yearEstimate :: "int \<Rightarrow> int" where
  "yearEstimate n = n - n div 1460 + n div 36524 - n div 146096"

definition yearOk :: "int \<Rightarrow> bool" where
  "yearOk y =
     (365 * y \<le> yearEstimate (daysBeforeYear y) \<and>
      yearEstimate (daysBeforeYear (y + 1) - 1) < 365 * (y + 1))"

fun yearsOk :: "nat \<Rightarrow> int \<Rightarrow> bool" where
  "yearsOk 0 y = True"
| "yearsOk (Suc k) y = (yearOk y \<and> yearsOk k (y + 1))"

section \<open>Facts about the store\<close>

lemma map_of_items_set: "map_of (items_set k v items) = (map_of items)(k \<mapsto> v)"
  by (induction items) auto

lemma getById_items_set:
  "getById (items_set k v items) k' = (if k' = k then Some v else getById items k')"
  by (simp add: getById_def map_of_items_set)

lemma keys_items_set:
  "getById items k = Some e \<Longrightarrow> map fst (items_set k v items) = map fst items"
  unfolding getById_def by (induction items) (auto split: if_splits)

lemma items_set_new:
  "getById items k = None \<Longrightarrow> items_set k v items = items @ [(k, v)]"
  unfolding getById_def by (induction items) (auto split: if_splits)

lemma updateWithVersion_eq:
  "updateWithVersion now ident updates expectedVersion items =
     (case getById items ident of
        None \<Rightarrow> (None, items)
      | Some existing \<Rightarrow>
          if r_version existing \<noteq> expectedVersion then (None, items)
          else (let updated = (spreadReservation existing updates)
                      \<lparr>r_id := r_id existing, r_createdAt := r_createdAt existing,
                       r_updatedAt := now, r_version := r_version existing + 1\<rparr>
                in (Some updated, items_set ident updated items)))"
  by (simp add: updateWithVersion_def reservationStore_update_def Let_def spreadReservation_def
        over_def split: option.splits)

lemma spread_status_only:
  "spreadReservation existing (emptyReservationPatch\<lparr>p_status := Some newStatus\<rparr>)
     = existing\<lparr>r_status := newStatus\<rparr>"
  by (simp add: spreadReservation_def emptyReservationPatch_def over_def)

lemma updateReservationStatus_reservations:
  "reservations (snd (updateReservationStatus now ident newStatus expectedVersion st)) =
     (case getById (reservations st) ident of
        None \<Rightarrow> reservations st
      | Some existing \<Rightarrow>
          if isValidStatusTransition (r_status existing) newStatus
               \<and> r_version existing = expectedVersion
          then items_set ident
                 (existing\<lparr>r_status := newStatus, r_updatedAt := now,
                    r_version := r_version existing + 1\<rparr>) (reservations st)
          else reservations st)"
  by (simp add: updateReservationStatus_def updateWithVersion_eq spread_status_only Let_def
        split: option.splits)

lemma isValidStatusTransition_iff:
  "isValidStatusTransition a b \<longleftrightarrow> (a, b) \<in> allowedTransitions"
  by (cases a; cases b; simp add: isValidStatusTransition_def allowedTransitions_def)

section \<open>The store's update (C10)\<close>

text \<open>
  C10. For every record in the reservation store and every patch, also one that carries
  \<open>id\<close> and \<open>createdAt\<close>, \<open>update\<close> returns a record with the old \<open>id\<close> and \<open>createdAt\<close>,
  with \<open>updatedAt\<close> set to the clock reading, and with every other field taken from the
  patch where the patch has it and from the old record otherwise; the record is stored
  under the same key, no other key changes and the order of the keys stays. On an id
  that is not in the store, \<open>update\<close> returns \<open>undefined\<close> and the store is unchanged.
\<close>

theorem BaseStore_update_frame:
  "(getById items ident = None \<longrightarrow>
      reservationStore_update now ident updates items = (None, items)) \<and>
   (\<forall>existing. getById items ident = Some existing \<longrightarrow>
      (\<exists>updated items'.
         reservationStore_update now ident updates items = (Some updated, items') \<and>
         r_id updated = r_id existing \<and>
         r_createdAt updated = r_createdAt existing \<and>
         r_updatedAt updated = now \<and>
         r_customerId updated = over (r_customerId existing) (p_customerId updates) \<and>
         r_customerName updated = over (r_customerName existing) (p_customerName updates) \<and>
         r_partySize updated = over (r_partySize existing) (p_partySize updates) \<and>
         r_tableId updated = over (r_tableId existing) (p_tableId updates) \<and>
         r_waiterId updated = over (r_waiterId existing) (p_waiterId updates) \<and>
         r_startTime updated = over (r_startTime existing) (p_startTime updates) \<and>
         r_endTime updated = over (r_endTime existing) (p_endTime updates) \<and>
         r_status updated = over (r_status existing) (p_status updates) \<and>
         r_isWalkIn updated = over (r_isWalkIn existing) (p_isWalkIn updates) \<and>
         r_timezone updated = over (r_timezone existing) (p_timezone updates) \<and>
         r_notes updated = over (r_notes existing) (p_notes updates) \<and>
         r_version updated = over (r_version existing) (p_version updates) \<and>
         getById items' ident = Some updated \<and>
         (\<forall>other. other \<noteq> ident \<longrightarrow> getById items' other = getById items other) \<and>
         map fst items' = map fst items))"
  by (auto simp: reservationStore_update_def Let_def spreadReservation_def getById_items_set
        keys_items_set)

theorem BaseStore_update_frame_witness:
  "reservationStore_update 5000 ''r2'' examplePatch [(''r1'', exampleReservation)]
     = (None, [(''r1'', exampleReservation)]) \<and>
   (\<exists>updated items'.
      reservationStore_update 5000 ''r1'' examplePatch [(''r1'', exampleReservation)]
        = (Some updated, items') \<and>
      r_id updated = ''r1'' \<and> r_createdAt updated = 1000 \<and> r_updatedAt updated = 5000 \<and>
      r_status updated = SEATED \<and> r_partySize updated = 2 \<and> map fst items' = [''r1''])"
proof -
  have absent: "getById [(''r1'', exampleReservation)] ''r2'' = None"
    by (simp add: getById_def)
  have present: "getById [(''r1'', exampleReservation)] ''r1'' = Some exampleReservation"
    by (simp add: getById_def)
  from BaseStore_update_frame [of "[(''r1'', exampleReservation)]" "''r2''" 5000 examplePatch]
    absent
  have first: "reservationStore_update 5000 ''r2'' examplePatch [(''r1'', exampleReservation)]
     = (None, [(''r1'', exampleReservation)])"
    by blast
  from BaseStore_update_frame [of "[(''r1'', exampleReservation)]" "''r1''" 5000 examplePatch]
    present
  obtain updated items' where
    u: "reservationStore_update 5000 ''r1'' examplePatch [(''r1'', exampleReservation)]
          = (Some updated, items')"
      "r_id updated = r_id exampleReservation"
      "r_createdAt updated = r_createdAt exampleReservation"
      "r_updatedAt updated = 5000"
      "r_status updated = over (r_status exampleReservation) (p_status examplePatch)"
      "r_partySize updated = over (r_partySize exampleReservation) (p_partySize examplePatch)"
      "map fst items' = map fst [(''r1'', exampleReservation)]"
    by blast
  from u have "r_id updated = ''r1'' \<and> r_createdAt updated = 1000 \<and> r_updatedAt updated = 5000 \<and>
      r_status updated = SEATED \<and> r_partySize updated = 2 \<and> map fst items' = [''r1'']"
    by (simp add: exampleReservation_def examplePatch_def emptyReservationPatch_def over_def)
  with u(1) first show ?thesis by auto
qed

section \<open>The conditional update (C2)\<close>

text \<open>
  C2. For every stored reservation and every patch: when \<open>expectedVersion\<close> differs from
  the stored version, \<open>updateWithVersion\<close> returns \<open>null\<close> and leaves the store as it was,
  and \<open>updateReservationStatus\<close> (for a transition that is allowed) reports
  CONCURRENT_MODIFICATION and leaves the whole state as it was. When \<open>expectedVersion\<close>
  equals the stored version, the returned record has version exactly the stored version
  plus one, \<open>updatedAt\<close> equal to the clock reading, the old \<open>id\<close> and \<open>createdAt\<close>, and the
  patch applied to every other field; it is the record now stored, and no other record
  changes.
\<close>

theorem updateWithVersion_conditional:
  assumes "getById items ident = Some existing"
  shows "(r_version existing \<noteq> expectedVersion \<longrightarrow>
            updateWithVersion now ident updates expectedVersion items = (None, items)) \<and>
         (r_version existing \<noteq> expectedVersion \<and> reservations st = items \<and>
            isValidStatusTransition (r_status existing) newStatus \<longrightarrow>
            updateReservationStatus now ident newStatus expectedVersion st
              = (Inl CONCURRENT_MODIFICATION, st)) \<and>
         (r_version existing = expectedVersion \<longrightarrow>
            (\<exists>updated items'.
               updateWithVersion now ident updates expectedVersion items = (Some updated, items') \<and>
               r_version updated = r_version existing + 1 \<and>
               r_updatedAt updated = now \<and>
               r_id updated = r_id existing \<and>
               r_createdAt updated = r_createdAt existing \<and>
               r_customerId updated = over (r_customerId existing) (p_customerId updates) \<and>
               r_customerName updated = over (r_customerName existing) (p_customerName updates) \<and>
               r_partySize updated = over (r_partySize existing) (p_partySize updates) \<and>
               r_tableId updated = over (r_tableId existing) (p_tableId updates) \<and>
               r_waiterId updated = over (r_waiterId existing) (p_waiterId updates) \<and>
               r_startTime updated = over (r_startTime existing) (p_startTime updates) \<and>
               r_endTime updated = over (r_endTime existing) (p_endTime updates) \<and>
               r_status updated = over (r_status existing) (p_status updates) \<and>
               r_isWalkIn updated = over (r_isWalkIn existing) (p_isWalkIn updates) \<and>
               r_timezone updated = over (r_timezone existing) (p_timezone updates) \<and>
               r_notes updated = over (r_notes existing) (p_notes updates) \<and>
               getById items' ident = Some updated \<and>
               (\<forall>other. other \<noteq> ident \<longrightarrow> getById items' other = getById items other)))"
  using assms
  by (auto simp: updateWithVersion_def updateReservationStatus_def reservationStore_update_def
        Let_def spreadReservation_def getById_items_set over_def)

theorem updateWithVersion_conditional_witness:
  "updateWithVersion 5000 ''r1'' examplePatch 7 [(''r1'', exampleReservation)]
     = (None, [(''r1'', exampleReservation)]) \<and>
   updateReservationStatus 5000 ''r1'' SEATED 7 exampleStores
     = (Inl CONCURRENT_MODIFICATION, exampleStores) \<and>
   (\<exists>updated items'.
      updateWithVersion 5000 ''r1'' examplePatch 1 [(''r1'', exampleReservation)]
        = (Some updated, items') \<and>
      r_version updated = 2 \<and> r_updatedAt updated = 5000 \<and> r_status updated = SEATED \<and>
      r_id updated = ''r1'')"
proof -
  have present: "getById [(''r1'', exampleReservation)] ''r1'' = Some exampleReservation"
    by (simp add: getById_def)
  have stale: "r_version exampleReservation \<noteq> 7"
    and fresh: "r_version exampleReservation = 1"
    and here: "reservations exampleStores = [(''r1'', exampleReservation)]"
    and ok: "isValidStatusTransition (r_status exampleReservation) SEATED"
    by (simp_all add: exampleReservation_def exampleStores_def isValidStatusTransition_def)
  note stale_case = updateWithVersion_conditional [OF present, of 7 5000 examplePatch
      exampleStores SEATED]
  note fresh_case = updateWithVersion_conditional [OF present, of 1 5000 examplePatch
      exampleStores SEATED]
  from stale_case stale here ok
  have a: "updateWithVersion 5000 ''r1'' examplePatch 7 [(''r1'', exampleReservation)]
             = (None, [(''r1'', exampleReservation)])"
    and b: "updateReservationStatus 5000 ''r1'' SEATED 7 exampleStores
             = (Inl CONCURRENT_MODIFICATION, exampleStores)"
    by blast+
  from fresh_case fresh obtain updated items' where
    u: "updateWithVersion 5000 ''r1'' examplePatch 1 [(''r1'', exampleReservation)]
          = (Some updated, items')"
       "r_version updated = r_version exampleReservation + 1"
       "r_updatedAt updated = 5000"
       "r_status updated = over (r_status exampleReservation) (p_status examplePatch)"
       "r_id updated = r_id exampleReservation"
    by blast
  from u have "r_version updated = 2 \<and> r_updatedAt updated = 5000 \<and> r_status updated = SEATED \<and>
      r_id updated = ''r1''"
    by (simp add: exampleReservation_def examplePatch_def emptyReservationPatch_def over_def)
  with u(1) a b show ?thesis by auto
qed

section \<open>The status machine (C3)\<close>

text \<open>
  C3. The transition check of the code is the specification's table. Whatever the
  request, every reservation that \<open>updateReservationStatus\<close> leaves in the store has
  either its old status or a status reached from the old one by an allowed transition
  (so COMPLETED, CANCELLED and NO_SHOW are never left). A request on an existing
  reservation whose pair of current and requested status is not in the table fails
  with INVALID_STATUS_TRANSITION and returns the state unchanged: reservations, tables
  and everything else.
\<close>

theorem updateReservationStatus_transitions:
  "(\<forall>a b. isValidStatusTransition a b \<longleftrightarrow> (a, b) \<in> allowedTransitions) \<and>
   (\<forall>other r r'.
      getById (reservations st) other = Some r \<and>
      getById (reservations (snd (updateReservationStatus now ident newStatus expectedVersion st)))
        other = Some r' \<longrightarrow>
      r_status r' = r_status r \<or> (r_status r, r_status r') \<in> allowedTransitions) \<and>
   (\<forall>existing.
      getById (reservations st) ident = Some existing \<and>
      (r_status existing, newStatus) \<notin> allowedTransitions \<longrightarrow>
      updateReservationStatus now ident newStatus expectedVersion st
        = (Inl INVALID_STATUS_TRANSITION, st))"
proof (intro conjI allI impI)
  fix a b show "isValidStatusTransition a b \<longleftrightarrow> (a, b) \<in> allowedTransitions"
    by (rule isValidStatusTransition_iff)
next
  fix other r r'
  assume "getById (reservations st) other = Some r \<and>
      getById (reservations (snd (updateReservationStatus now ident newStatus expectedVersion st)))
        other = Some r'"
  then show "r_status r' = r_status r \<or> (r_status r, r_status r') \<in> allowedTransitions"
    by (auto simp: updateReservationStatus_reservations getById_items_set
          isValidStatusTransition_iff split: option.splits if_splits)
next
  fix existing
  assume "getById (reservations st) ident = Some existing \<and>
      (r_status existing, newStatus) \<notin> allowedTransitions"
  then show "updateReservationStatus now ident newStatus expectedVersion st
        = (Inl INVALID_STATUS_TRANSITION, st)"
    by (simp add: updateReservationStatus_def isValidStatusTransition_iff)
qed

theorem updateReservationStatus_transitions_witness:
  "updateReservationStatus 5000 ''r1'' COMPLETED 1 exampleStores
     = (Inl INVALID_STATUS_TRANSITION, exampleStores) \<and>
   (\<exists>r'. getById (reservations (snd (updateReservationStatus 5000 ''r1'' SEATED 1 exampleStores)))
            ''r1'' = Some r' \<and> r_status r' = SEATED) \<and>
   (CONFIRMED, SEATED) \<in> allowedTransitions"
proof -
  have present: "getById (reservations exampleStores) ''r1'' = Some exampleReservation"
    by (simp add: getById_def exampleStores_def)
  have bad: "(r_status exampleReservation, COMPLETED) \<notin> allowedTransitions"
    by (simp add: exampleReservation_def allowedTransitions_def)
  have after: "getById (reservations (snd (updateReservationStatus 5000 ''r1'' SEATED 1 exampleStores)))
            ''r1'' = Some (exampleReservation\<lparr>r_status := SEATED, r_updatedAt := 5000,
                             r_version := 2\<rparr>)"
    by (simp add: updateReservationStatus_reservations present getById_items_set
          isValidStatusTransition_def exampleReservation_def)
  from updateReservationStatus_transitions [of exampleStores 5000 "''r1''" COMPLETED 1]
    present bad
  have a: "updateReservationStatus 5000 ''r1'' COMPLETED 1 exampleStores
     = (Inl INVALID_STATUS_TRANSITION, exampleStores)"
    by blast
  from updateReservationStatus_transitions [of exampleStores 5000 "''r1''" SEATED 1]
    present after
  have "r_status (exampleReservation\<lparr>r_status := SEATED, r_updatedAt := 5000, r_version := 2\<rparr>)
          = r_status exampleReservation
        \<or> (r_status exampleReservation,
            r_status (exampleReservation\<lparr>r_status := SEATED, r_updatedAt := 5000,
                        r_version := 2\<rparr>)) \<in> allowedTransitions"
    by blast
  then have b: "(CONFIRMED, SEATED) \<in> allowedTransitions"
    by (simp add: exampleReservation_def)
  from a b after show ?thesis by simp
qed

section \<open>Acquiring one lock (C4)\<close>

lemma getLockKey_inject:
  "getLockKey rt rid = getLockKey rt' rid' \<longleftrightarrow> rt = rt' \<and> rid = rid'"
  by (cases rt; cases rt'; simp add: getLockKey_def)

text \<open>
  C4. For every lock map, \<open>acquireLock\<close> succeeds exactly when the key of (kind, id) has
  no lock that is still valid (expiry after now), or has a lock whose owner is the
  caller. When it fails the lock map is unchanged. When it succeeds the map holds, under
  that key, the new lock of the caller, expiring \<open>timeoutMinutes\<close> after now on the clock
  of the process (\<open>addMinutes\<close>). A lock whose expiry is not after now never stops an
  acquisition, whoever asks.
\<close>

theorem acquireLock_iff:
  "((\<exists>lock. fst (acquireLock zone now rt rid lockOwner timeoutMinutes lockMap) = Inr lock) \<longleftrightarrow>
      (\<not> (\<exists>existing. lockMap (getLockKey rt rid) = Some existing \<and> expiresAt existing > now)
       \<or> (\<exists>existing. lockMap (getLockKey rt rid) = Some existing
                      \<and> lockedBy existing = lockOwner))) \<and>
   (\<forall>err. fst (acquireLock zone now rt rid lockOwner timeoutMinutes lockMap) = Inl err \<longrightarrow>
      snd (acquireLock zone now rt rid lockOwner timeoutMinutes lockMap) = lockMap) \<and>
   (\<forall>lock. fst (acquireLock zone now rt rid lockOwner timeoutMinutes lockMap) = Inr lock \<longrightarrow>
      lockedBy lock = lockOwner \<and> expiresAt lock = addMinutes zone now timeoutMinutes \<and>
      snd (acquireLock zone now rt rid lockOwner timeoutMinutes lockMap)
        = lockMap(getLockKey rt rid \<mapsto> lock)) \<and>
   (\<forall>existing. lockMap (getLockKey rt rid) = Some existing \<and> expiresAt existing \<le> now \<longrightarrow>
      (\<exists>lock. fst (acquireLock zone now rt rid lockOwner timeoutMinutes lockMap) = Inr lock))"
  by (auto simp: acquireLock_def Let_def split: option.splits)

theorem acquireLock_iff_witness:
  "(\<exists>err. fst (acquireLock utcZone 60000 RT_table ''t1'' ''owner-2'' 2
                 [getLockKey RT_table ''t1'' \<mapsto> exampleLock]) = Inl err) \<and>
   snd (acquireLock utcZone 60000 RT_table ''t1'' ''owner-2'' 2
          [getLockKey RT_table ''t1'' \<mapsto> exampleLock])
     = [getLockKey RT_table ''t1'' \<mapsto> exampleLock] \<and>
   (\<exists>lock. fst (acquireLock utcZone 60000 RT_table ''t1'' ''owner-1'' 2
                  [getLockKey RT_table ''t1'' \<mapsto> exampleLock]) = Inr lock) \<and>
   (\<exists>lock. fst (acquireLock utcZone 120000 RT_table ''t1'' ''owner-2'' 2
                  [getLockKey RT_table ''t1'' \<mapsto> exampleLock]) = Inr lock)"
proof -
  let ?m = "[getLockKey RT_table ''t1'' \<mapsto> exampleLock]"
  have held: "?m (getLockKey RT_table ''t1'') = Some exampleLock"
    by simp
  have valid: "expiresAt exampleLock > 60000" and mine: "lockedBy exampleLock = ''owner-1''"
    and notmine: "lockedBy exampleLock \<noteq> ''owner-2''" and gone: "expiresAt exampleLock \<le> 120000"
    by (simp_all add: exampleLock_def)
  note other = acquireLock_iff [of utcZone 60000 RT_table "''t1''" "''owner-2''" 2 ?m]
  note same = acquireLock_iff [of utcZone 60000 RT_table "''t1''" "''owner-1''" 2 ?m]
  note late = acquireLock_iff [of utcZone 120000 RT_table "''t1''" "''owner-2''" 2 ?m]
  from other held valid notmine
  have no: "\<not> (\<exists>lock. fst (acquireLock utcZone 60000 RT_table ''t1'' ''owner-2'' 2 ?m) = Inr lock)"
    by auto
  then have a: "\<exists>err. fst (acquireLock utcZone 60000 RT_table ''t1'' ''owner-2'' 2 ?m) = Inl err"
    by (cases "fst (acquireLock utcZone 60000 RT_table ''t1'' ''owner-2'' 2 ?m)") auto
  with other have b: "snd (acquireLock utcZone 60000 RT_table ''t1'' ''owner-2'' 2 ?m) = ?m"
    by blast
  from same held mine
  have c: "\<exists>lock. fst (acquireLock utcZone 60000 RT_table ''t1'' ''owner-1'' 2 ?m) = Inr lock"
    by blast
  from late held gone
  have d: "\<exists>lock. fst (acquireLock utcZone 120000 RT_table ''t1'' ''owner-2'' 2 ?m) = Inr lock"
    by blast
  from a b c d show ?thesis by blast
qed

section \<open>Acquiring several locks (C5)\<close>

lemma keyOf_inject: "keyOf r = keyOf r' \<longleftrightarrow> r = r'"
  by (cases r; cases r') (simp add: keyOf_def getLockKey_inject)

lemma acquireLock_eq:
  "acquireLock zone now rt rid lockOwner timeoutMinutes lockMap =
     (if heldByOther now lockOwner lockMap (getLockKey rt rid)
      then (Inl (ResourceLockedUntil (expiresAt (the (lockMap (getLockKey rt rid))))), lockMap)
      else (Inr (newLock zone now lockOwner timeoutMinutes (rt, rid)),
            lockMap(getLockKey rt rid \<mapsto> newLock zone now lockOwner timeoutMinutes (rt, rid))))"
  by (auto simp: acquireLock_def heldByOther_def newLock_def Let_def split: option.splits)

lemma releaseAll_eq:
  "\<forall>l \<in> set acquired. \<forall>e. lockMap (lockKey l) = Some e \<longrightarrow> lockedBy e = lockOwner \<Longrightarrow>
   releaseAll lockOwner acquired lockMap =
     (\<lambda>k. if k \<in> lockKey ` set acquired then None else lockMap k)"
proof (induction acquired arbitrary: lockMap)
  case Nil
  then show ?case by simp
next
  case (Cons l ls)
  let ?m = "snd (releaseLock (resourceType l) (resourceId l) lockOwner lockMap)"
  have m: "?m = lockMap(lockKey l := None)"
    using Cons.prems
    by (auto simp: releaseLock_def lockKey_def Let_def split: option.splits)
  have "\<forall>l' \<in> set ls. \<forall>e. (lockMap(lockKey l := None)) (lockKey l') = Some e
            \<longrightarrow> lockedBy e = lockOwner"
    using Cons.prems by auto
  from Cons.IH [OF this]
  have "releaseAll lockOwner ls (lockMap(lockKey l := None)) =
          (\<lambda>k. if k \<in> lockKey ` set ls then None else (lockMap(lockKey l := None)) k)" .
  moreover have "releaseAll lockOwner (l # ls) lockMap
                   = releaseAll lockOwner ls (lockMap(lockKey l := None))"
    by (simp add: m)
  ultimately show ?case
    by (auto simp: fun_eq_iff)
qed

lemma heldByOther_upd:
  "\<not> heldByOther now lockOwner lockMap k \<Longrightarrow> lockedBy l = lockOwner \<Longrightarrow>
   heldByOther now lockOwner (lockMap(k \<mapsto> l)) k' = heldByOther now lockOwner lockMap k'"
  by (auto simp: heldByOther_def split: option.splits)

lemma acquireEach_eq:
  "\<forall>l \<in> set acquired. \<forall>e. lockMap (lockKey l) = Some e \<longrightarrow> lockedBy e = lockOwner \<Longrightarrow>
   acquireEach zone now lockOwner timeoutMinutes resources acquired lockMap =
     (case dropWhile (\<lambda>r. \<not> heldByOther now lockOwner lockMap (keyOf r)) resources of
        [] \<Rightarrow>
          (Inr (),
           (\<lambda>k. case find (\<lambda>r. keyOf r = k) resources of
                  None \<Rightarrow> lockMap k
                | Some r \<Rightarrow> Some (newLock zone now lockOwner timeoutMinutes r)))
      | r # _ \<Rightarrow>
          (Inl (FailedToAcquire (fst r) (snd r)
                  (ResourceLockedUntil (expiresAt (the (lockMap (keyOf r)))))),
           (\<lambda>k. if k \<in> lockKey ` set acquired
                      \<or> k \<in> keyOf ` set (takeWhile
                              (\<lambda>r. \<not> heldByOther now lockOwner lockMap (keyOf r)) resources)
                 then None else lockMap k)))"
proof (induction resources arbitrary: acquired lockMap)
  case Nil
  then show ?case by simp
next
  case (Cons r rest)
  show ?case
  proof (cases "heldByOther now lockOwner lockMap (keyOf r)")
    case True
    with Cons.prems show ?thesis
      by (simp add: acquireLock_eq keyOf_def [symmetric] releaseAll_eq)
  next
    case False
    let ?l = "newLock zone now lockOwner timeoutMinutes r"
    let ?m = "lockMap(keyOf r \<mapsto> ?l)"
    have own: "lockedBy ?l = lockOwner" by (simp add: newLock_def)
    have key: "lockKey ?l = keyOf r" by (simp add: newLock_def lockKey_def keyOf_def)
    have same: "\<And>k. heldByOther now lockOwner ?m k = heldByOther now lockOwner lockMap k"
      using False own by (rule heldByOther_upd)
    have pre: "\<forall>l \<in> set (acquired @ [?l]). \<forall>e. ?m (lockKey l) = Some e \<longrightarrow> lockedBy e = lockOwner"
      using Cons.prems own by (auto simp: key)
    have step: "acquireEach zone now lockOwner timeoutMinutes (r # rest) acquired lockMap
          = acquireEach zone now lockOwner timeoutMinutes rest (acquired @ [?l]) ?m"
      using False by (simp add: acquireLock_eq keyOf_def [symmetric])
    let ?P = "\<lambda>r. \<not> heldByOther now lockOwner lockMap (keyOf r)"
    note IH = Cons.IH [OF pre, unfolded same]
    have dw: "dropWhile ?P (r # rest) = dropWhile ?P rest" using False by simp
    show ?thesis
    proof (cases "dropWhile ?P rest")
      case Nil
      have "find (\<lambda>x. keyOf x = k) (r # rest) = None
              \<longleftrightarrow> k \<noteq> keyOf r \<and> find (\<lambda>x. keyOf x = k) rest = None" for k
        by auto
      have succ: "(\<lambda>k. case find (\<lambda>x. keyOf x = k) rest of
                    None \<Rightarrow> ?m k
                  | Some x \<Rightarrow> Some (newLock zone now lockOwner timeoutMinutes x))
            = (\<lambda>k. case find (\<lambda>x. keyOf x = k) (r # rest) of
                    None \<Rightarrow> lockMap k
                  | Some x \<Rightarrow> Some (newLock zone now lockOwner timeoutMinutes x))"
      proof
        fix k
        show "(case find (\<lambda>x. keyOf x = k) rest of
                    None \<Rightarrow> ?m k
                  | Some x \<Rightarrow> Some (newLock zone now lockOwner timeoutMinutes x))
            = (case find (\<lambda>x. keyOf x = k) (r # rest) of
                    None \<Rightarrow> lockMap k
                  | Some x \<Rightarrow> Some (newLock zone now lockOwner timeoutMinutes x))"
        proof (cases "keyOf r = k")
          case True
          then have "r' = r" if "keyOf r' = k" for r'
            using that by (simp add: keyOf_inject [symmetric])
          then have "find (\<lambda>x. keyOf x = k) rest = Some x \<Longrightarrow> x = r" for x
            by (metis (mono_tags, lifting) find_Some_iff)
          with True show ?thesis by (auto split: option.splits)
        next
          case False
          then show ?thesis by (auto split: option.splits)
        qed
      qed
      show ?thesis
        unfolding step IH dw Nil by (simp add: succ)
    next
      case (Cons b bs)
      then have hb: "heldByOther now lockOwner lockMap (keyOf b)"
        by (auto simp: dropWhile_eq_Cons_conv)
      with False have "keyOf b \<noteq> keyOf r" by auto
      then have e: "?m (keyOf b) = lockMap (keyOf b)" by simp
      have f: "(\<lambda>k. if k \<in> lockKey ` set (acquired @ [?l]) \<or> k \<in> keyOf ` set (takeWhile ?P rest)
                    then None else ?m k)
             = (\<lambda>k. if k \<in> lockKey ` set acquired \<or> k \<in> keyOf ` set (takeWhile ?P (r # rest))
                    then None else lockMap k)"
      proof (rule ext)
        fix k
        have tw: "takeWhile ?P (r # rest) = r # takeWhile ?P rest" using False by simp
        show "(if k \<in> lockKey ` set (acquired @ [?l]) \<or> k \<in> keyOf ` set (takeWhile ?P rest)
                    then None else ?m k)
             = (if k \<in> lockKey ` set acquired \<or> k \<in> keyOf ` set (takeWhile ?P (r # rest))
                    then None else lockMap k)"
          unfolding tw by (cases "k = keyOf r") (auto simp: key)
      qed
      show ?thesis
        unfolding step IH dw Cons f by (simp only: list.case e)
    qed
  qed
qed


lemma mset_insertSorted: "mset (insertSorted cmp x ys) = add_mset x (mset ys)"
  by (induction ys) auto

lemma mset_sortBy: "mset (sortBy cmp xs) = mset xs"
  by (induction xs) (auto simp: sortBy_def mset_insertSorted)

lemma set_sortBy: "set (sortBy cmp xs) = set xs"
  using mset_sortBy [of cmp xs] by (rule mset_eq_setD)

lemma set_insertSorted: "set (insertSorted cmp x ys) = insert x (set ys)"
  by (induction ys) auto

lemma sorted_insertSorted:
  assumes total: "\<And>a b. cmp a b \<le> 0 \<or> cmp b a \<le> 0"
    and trans: "\<And>a b c. cmp a b \<le> 0 \<Longrightarrow> cmp b c \<le> 0 \<Longrightarrow> cmp a c \<le> 0"
  shows "sorted_wrt (\<lambda>a b. cmp a b \<le> 0) ys
           \<Longrightarrow> sorted_wrt (\<lambda>a b. cmp a b \<le> 0) (insertSorted cmp x ys)"
proof (induction ys)
  case Nil
  then show ?case by simp
next
  case (Cons y ys)
  show ?case
  proof (cases "cmp x y \<le> 0")
    case True
    with Cons.prems trans show ?thesis by auto
  next
    case False
    with total have "cmp y x \<le> 0" by blast
    with Cons False show ?thesis by (auto simp: set_insertSorted)
  qed
qed

lemma sorted_sortBy:
  assumes "\<And>a b. cmp a b \<le> 0 \<or> cmp b a \<le> 0"
    and "\<And>a b c. cmp a b \<le> 0 \<Longrightarrow> cmp b c \<le> 0 \<Longrightarrow> cmp a c \<le> 0"
  shows "sorted_wrt (\<lambda>a b. cmp a b \<le> 0) (sortBy cmp xs)"
proof (induction xs)
  case Nil
  then show ?case by (simp add: sortBy_def)
next
  case (Cons x xs)
  have "sortBy cmp (x # xs) = insertSorted cmp x (sortBy cmp xs)"
    by (simp add: sortBy_def)
  with Cons sorted_insertSorted [of cmp, OF assms] show ?case by simp
qed



lemma compareStrings_total: "compareStrings a b \<le> 0 \<or> compareStrings b a \<le> 0"
proof (induction a b rule: compareStrings.induct)
  case (4 x xs y ys)
  then show ?case by (cases "(of_char x :: nat) < of_char y"; cases "(of_char y :: nat) < of_char x") simp_all
qed simp_all


lemma compareStrings_trans:
  "compareStrings a b \<le> 0 \<Longrightarrow> compareStrings b c \<le> 0 \<Longrightarrow> compareStrings a c \<le> 0"
proof (induction a arbitrary: b c)
  case Nil
  then show ?case by (cases c) simp_all
next
  case (Cons x xs)
  from Cons.prems(1) obtain y ys where b: "b = y # ys" by (cases b) auto
  from Cons.prems(2) b obtain z zs where c: "c = z # zs" by (cases c) auto
  let ?x = "of_char x :: nat" and ?y = "of_char y :: nat" and ?z = "of_char z :: nat"
  from Cons.prems(1) b have xy: "?x < ?y \<or> (?x = ?y \<and> compareStrings xs ys \<le> 0)"
    by (cases "?x < ?y"; cases "?y < ?x") simp_all
  from Cons.prems(2) b c have yz: "?y < ?z \<or> (?y = ?z \<and> compareStrings ys zs \<le> 0)"
    by (cases "?y < ?z"; cases "?z < ?y") simp_all
  have "?x < ?z \<or> (?x = ?z \<and> compareStrings xs zs \<le> 0)"
  proof (cases "?x < ?y \<or> ?y < ?z")
    case True
    with xy yz show ?thesis by linarith
  next
    case False
    with xy yz have "?x = ?y" "?y = ?z" "compareStrings xs ys \<le> 0" "compareStrings ys zs \<le> 0"
      by blast+
    with Cons.IH [of ys zs] show ?thesis by simp
  qed
  then show ?case unfolding c by (cases "?x < ?z") auto
qed


lemma sorted_ba:
  "sortedResources compareStrings [(RT_table, ''b''), (RT_table, ''a'')]
     = [(RT_table, ''a''), (RT_table, ''b'')]"
  by (simp add: sortedResources_def sortBy_def getLockKey_def)


lemma acquireMultipleLocks_eq:
  "acquireMultipleLocks zone localeCompare now resources lockOwner timeoutMinutes lockMap =
     (case dropWhile (\<lambda>r. \<not> heldByOther now lockOwner lockMap (keyOf r))
             (sortedResources localeCompare resources) of
        [] \<Rightarrow>
          (Inr (),
           (\<lambda>k. case find (\<lambda>r. keyOf r = k) (sortedResources localeCompare resources) of
                  None \<Rightarrow> lockMap k
                | Some r \<Rightarrow> Some (newLock zone now lockOwner timeoutMinutes r)))
      | r # _ \<Rightarrow>
          (Inl (FailedToAcquire (fst r) (snd r)
                  (ResourceLockedUntil (expiresAt (the (lockMap (keyOf r)))))),
           (\<lambda>k. if k \<in> keyOf ` set (takeWhile
                              (\<lambda>r. \<not> heldByOther now lockOwner lockMap (keyOf r))
                              (sortedResources localeCompare resources))
                 then None else lockMap k)))"
proof -
  have "\<forall>l \<in> set []. \<forall>e. lockMap (lockKey l) = Some e \<longrightarrow> lockedBy e = lockOwner"
    by simp
  from acquireEach_eq [OF this] show ?thesis
    unfolding acquireMultipleLocks_def by (simp cong: list.case_cong)
qed

lemma set_sortedResources: "set (sortedResources localeCompare resources) = set resources"
  by (simp add: sortedResources_def set_sortBy)

lemma find_keyOf:
  "r \<in> set rs \<Longrightarrow> find (\<lambda>x. keyOf x = keyOf r) rs = Some r"
  by (induction rs) (auto simp: keyOf_inject)

lemma find_keyOf_None:
  "k \<notin> keyOf ` set rs \<Longrightarrow> find (\<lambda>x. keyOf x = k) rs = None"
  by (induction rs) auto

lemma acquireMultipleLocks_parts:
  fixes zone localeCompare now resources lockOwner timeoutMinutes lockMap
  defines "result \<equiv>
    acquireMultipleLocks zone localeCompare now resources lockOwner timeoutMinutes lockMap"
  defines "free \<equiv> (\<lambda>r. \<not> heldByOther now lockOwner lockMap (keyOf r))"
  shows "mset (sortedResources localeCompare resources) = mset resources"
    and "(\<forall>a b. localeCompare a b \<le> 0 \<or> localeCompare b a \<le> 0) \<and>
         (\<forall>a b c. localeCompare a b \<le> 0 \<and> localeCompare b c \<le> 0 \<longrightarrow> localeCompare a c \<le> 0)
         \<longrightarrow> sorted_wrt (\<lambda>a b. localeCompare (keyOf a) (keyOf b) \<le> 0)
               (sortedResources localeCompare resources)"
    and "(\<exists>u. fst result = Inr u) \<longleftrightarrow> (\<forall>r \<in> set resources. free r)"
    and "(\<exists>u. fst result = Inr u) \<longrightarrow>
           (\<forall>r \<in> set resources. snd result (keyOf r) = Some (newLock zone now lockOwner timeoutMinutes r))
           \<and> (\<forall>k. k \<notin> keyOf ` set resources \<longrightarrow> snd result k = lockMap k)"
    and "(\<exists>err. fst result = Inl err) \<longrightarrow>
           snd result =
             (\<lambda>k. if k \<in> keyOf ` set (takeWhile free (sortedResources localeCompare resources))
                  then None else lockMap k)
           \<and> (\<forall>k. snd result k = None \<or> snd result k = lockMap k)
           \<and> (\<forall>k. k \<notin> keyOf ` set resources \<longrightarrow> snd result k = lockMap k)
           \<and> (\<forall>k. heldByOther now lockOwner lockMap k \<longrightarrow> snd result k = lockMap k)"
proof -
  let ?s = "sortedResources localeCompare resources"
  show "mset ?s = mset resources"
    by (simp add: sortedResources_def mset_sortBy)
  show "(\<forall>a b. localeCompare a b \<le> 0 \<or> localeCompare b a \<le> 0) \<and>
         (\<forall>a b c. localeCompare a b \<le> 0 \<and> localeCompare b c \<le> 0 \<longrightarrow> localeCompare a c \<le> 0)
         \<longrightarrow> sorted_wrt (\<lambda>a b. localeCompare (keyOf a) (keyOf b) \<le> 0) ?s"
  proof
    assume h: "(\<forall>a b. localeCompare a b \<le> 0 \<or> localeCompare b a \<le> 0) \<and>
         (\<forall>a b c. localeCompare a b \<le> 0 \<and> localeCompare b c \<le> 0 \<longrightarrow> localeCompare a c \<le> 0)"
    let ?c = "\<lambda>a b. localeCompare (keyOf a) (keyOf b)"
    have t: "\<And>a b. ?c a b \<le> 0 \<or> ?c b a \<le> 0" using h by blast
    have tr: "\<And>a b c. ?c a b \<le> 0 \<Longrightarrow> ?c b c \<le> 0 \<Longrightarrow> ?c a c \<le> 0" using h by blast
    from sorted_sortBy [of ?c resources, OF t tr]
    show "sorted_wrt (\<lambda>a b. ?c a b \<le> 0) ?s"
      by (simp add: sortedResources_def keyOf_def)
  qed
  have dw: "dropWhile free ?s = [] \<longleftrightarrow> (\<forall>r \<in> set resources. free r)"
    by (simp add: set_sortedResources)
  have res: "result =
     (case dropWhile free ?s of
        [] \<Rightarrow>
          (Inr (),
           (\<lambda>k. case find (\<lambda>r. keyOf r = k) ?s of
                  None \<Rightarrow> lockMap k
                | Some r \<Rightarrow> Some (newLock zone now lockOwner timeoutMinutes r)))
      | r # _ \<Rightarrow>
          (Inl (FailedToAcquire (fst r) (snd r)
                  (ResourceLockedUntil (expiresAt (the (lockMap (keyOf r)))))),
           (\<lambda>k. if k \<in> keyOf ` set (takeWhile free ?s) then None else lockMap k)))"
    unfolding result_def free_def by (rule acquireMultipleLocks_eq)
  show iff: "(\<exists>u. fst result = Inr u) \<longleftrightarrow> (\<forall>r \<in> set resources. free r)"
  proof (cases "dropWhile free ?s")
    case Nil
    with res have "fst result = Inr ()" by simp
    moreover from Nil dw have "\<forall>r \<in> set resources. free r" by blast
    ultimately show ?thesis by blast
  next
    case (Cons b bs)
    with res have "fst result = Inl (FailedToAcquire (fst b) (snd b)
                  (ResourceLockedUntil (expiresAt (the (lockMap (keyOf b))))))"
      by simp
    moreover from Cons dw have "\<not> (\<forall>r \<in> set resources. free r)" by simp
    ultimately show ?thesis by simp
  qed
  show "(\<exists>u. fst result = Inr u) \<longrightarrow>
           (\<forall>r \<in> set resources. snd result (keyOf r) = Some (newLock zone now lockOwner timeoutMinutes r))
           \<and> (\<forall>k. k \<notin> keyOf ` set resources \<longrightarrow> snd result k = lockMap k)"
  proof
    assume "\<exists>u. fst result = Inr u"
    with iff dw have "dropWhile free ?s = []" by simp
    with res have r: "snd result = (\<lambda>k. case find (\<lambda>r. keyOf r = k) ?s of
                  None \<Rightarrow> lockMap k
                | Some r \<Rightarrow> Some (newLock zone now lockOwner timeoutMinutes r))"
      by simp
    show "(\<forall>r \<in> set resources. snd result (keyOf r) = Some (newLock zone now lockOwner timeoutMinutes r))
           \<and> (\<forall>k. k \<notin> keyOf ` set resources \<longrightarrow> snd result k = lockMap k)"
      unfolding r
      by (auto simp: find_keyOf find_keyOf_None set_sortedResources)
  qed
  show "(\<exists>err. fst result = Inl err) \<longrightarrow>
           snd result =
             (\<lambda>k. if k \<in> keyOf ` set (takeWhile free ?s) then None else lockMap k)
           \<and> (\<forall>k. snd result k = None \<or> snd result k = lockMap k)
           \<and> (\<forall>k. k \<notin> keyOf ` set resources \<longrightarrow> snd result k = lockMap k)
           \<and> (\<forall>k. heldByOther now lockOwner lockMap k \<longrightarrow> snd result k = lockMap k)"
  proof
    assume "\<exists>err. fst result = Inl err"
    then have "dropWhile free ?s \<noteq> []"
      using res by (cases "dropWhile free ?s") auto
    with res have r: "snd result =
             (\<lambda>k. if k \<in> keyOf ` set (takeWhile free ?s) then None else lockMap k)"
      by (cases "dropWhile free ?s") simp_all
    have sub: "set (takeWhile free ?s) \<subseteq> set resources"
      using set_takeWhileD set_sortedResources by fastforce
    have fr: "\<And>x. x \<in> set (takeWhile free ?s) \<Longrightarrow> free x"
      by (rule set_takeWhileD [THEN conjunct2])
    show "snd result =
             (\<lambda>k. if k \<in> keyOf ` set (takeWhile free ?s) then None else lockMap k)
           \<and> (\<forall>k. snd result k = None \<or> snd result k = lockMap k)
           \<and> (\<forall>k. k \<notin> keyOf ` set resources \<longrightarrow> snd result k = lockMap k)
           \<and> (\<forall>k. heldByOther now lockOwner lockMap k \<longrightarrow> snd result k = lockMap k)"
    proof (intro conjI allI impI)
      show "snd result =
             (\<lambda>k. if k \<in> keyOf ` set (takeWhile free ?s) then None else lockMap k)"
        by (rule r)
    next
      fix k show "snd result k = None \<or> snd result k = lockMap k"
        by (simp add: r)
    next
      fix k assume "k \<notin> keyOf ` set resources"
      with sub have "k \<notin> keyOf ` set (takeWhile free ?s)" by blast
      then show "snd result k = lockMap k" by (simp add: r)
    next
      fix k assume "heldByOther now lockOwner lockMap k"
      with fr have "k \<notin> keyOf ` set (takeWhile free ?s)"
        by (auto simp: free_def)
      then show "snd result k = lockMap k" by (simp add: r)
    qed
  qed
qed

text \<open>
  C5, as the code has it. \<open>acquireMultipleLocks\<close> acquires the requested keys one after
  the other in the order of the sorted copy of the request, which is a permutation of the
  request and is ordered by the collation whenever the collation is a total preorder.
  It succeeds exactly when no requested key is held by another owner; then every requested
  key holds the caller's new lock and no other key changes. When it fails, the lock map
  afterwards is the map before the call without the keys that come, in sorted order,
  before the first key held by another owner: every key is as before or unlocked, keys
  that were not requested are as before, and locks held by another owner are as before.
  The keys it removes include those on which the caller already held a lock before the
  call.
\<close>

theorem acquireMultipleLocks_rollback:
  "mset (sortedResources localeCompare resources) = mset resources \<and>
   ((\<forall>a b. localeCompare a b \<le> 0 \<or> localeCompare b a \<le> 0) \<and>
    (\<forall>a b c. localeCompare a b \<le> 0 \<and> localeCompare b c \<le> 0 \<longrightarrow> localeCompare a c \<le> 0)
      \<longrightarrow> sorted_wrt (\<lambda>a b. localeCompare (keyOf a) (keyOf b) \<le> 0)
            (sortedResources localeCompare resources)) \<and>
   ((\<exists>u. fst (acquireMultipleLocks zone localeCompare now resources lockOwner timeoutMinutes lockMap)
            = Inr u)
      \<longleftrightarrow> (\<forall>r \<in> set resources. \<not> heldByOther now lockOwner lockMap (keyOf r))) \<and>
   ((\<exists>u. fst (acquireMultipleLocks zone localeCompare now resources lockOwner timeoutMinutes lockMap)
            = Inr u) \<longrightarrow>
      (\<forall>r \<in> set resources.
         snd (acquireMultipleLocks zone localeCompare now resources lockOwner timeoutMinutes lockMap)
           (keyOf r) = Some (newLock zone now lockOwner timeoutMinutes r)) \<and>
      (\<forall>k. k \<notin> keyOf ` set resources \<longrightarrow>
         snd (acquireMultipleLocks zone localeCompare now resources lockOwner timeoutMinutes lockMap) k
           = lockMap k)) \<and>
   ((\<exists>err. fst (acquireMultipleLocks zone localeCompare now resources lockOwner timeoutMinutes lockMap)
              = Inl err) \<longrightarrow>
      snd (acquireMultipleLocks zone localeCompare now resources lockOwner timeoutMinutes lockMap) =
        (\<lambda>k. if k \<in> keyOf ` set (takeWhile
                         (\<lambda>r. \<not> heldByOther now lockOwner lockMap (keyOf r))
                         (sortedResources localeCompare resources))
             then None else lockMap k) \<and>
      (\<forall>k. snd (acquireMultipleLocks zone localeCompare now resources lockOwner timeoutMinutes lockMap) k
              = None
           \<or> snd (acquireMultipleLocks zone localeCompare now resources lockOwner timeoutMinutes lockMap) k
              = lockMap k) \<and>
      (\<forall>k. k \<notin> keyOf ` set resources \<longrightarrow>
         snd (acquireMultipleLocks zone localeCompare now resources lockOwner timeoutMinutes lockMap) k
           = lockMap k) \<and>
      (\<forall>k. heldByOther now lockOwner lockMap k \<longrightarrow>
         snd (acquireMultipleLocks zone localeCompare now resources lockOwner timeoutMinutes lockMap) k
           = lockMap k))"
  by (intro conjI) (rule acquireMultipleLocks_parts)+

theorem acquireMultipleLocks_rollback_witness:
  "sorted_wrt (\<lambda>a b. compareStrings (keyOf a) (keyOf b) \<le> 0)
     (sortedResources compareStrings [(RT_table, ''b''), (RT_table, ''a'')]) \<and>
   (\<exists>err. fst (acquireMultipleLocks utcZone compareStrings 60000 [(RT_table, ''b''), (RT_table, ''a'')]
                 ''owner-1'' 2 twoLocks) = Inl err) \<and>
   snd (acquireMultipleLocks utcZone compareStrings 60000 [(RT_table, ''b''), (RT_table, ''a'')]
          ''owner-1'' 2 twoLocks) (getLockKey RT_table ''b'')
     = twoLocks (getLockKey RT_table ''b'') \<and>
   snd (acquireMultipleLocks utcZone compareStrings 60000 [(RT_table, ''b''), (RT_table, ''a'')]
          ''owner-1'' 2 twoLocks) (getLockKey RT_table ''c'')
     = twoLocks (getLockKey RT_table ''c'')"
proof -
  let ?rs = "[(RT_table, ''b''), (RT_table, ''a'')]"
  note inst = acquireMultipleLocks_rollback [of compareStrings ?rs utcZone 60000 "''owner-1''" 2 twoLocks]
  have coll: "(\<forall>a b. compareStrings a b \<le> 0 \<or> compareStrings b a \<le> 0) \<and>
    (\<forall>a b c. compareStrings a b \<le> 0 \<and> compareStrings b c \<le> 0 \<longrightarrow> compareStrings a c \<le> 0)"
    using compareStrings_total compareStrings_trans by blast
  have held: "heldByOther 60000 ''owner-1'' twoLocks (getLockKey RT_table ''b'')"
    by (simp add: heldByOther_def twoLocks_def getLockKey_def)
  have "\<not> (\<forall>r \<in> set ?rs. \<not> heldByOther 60000 ''owner-1'' twoLocks (keyOf r))"
    using held by (simp add: keyOf_def)
  with inst have "\<not> (\<exists>u. fst (acquireMultipleLocks utcZone compareStrings 60000 ?rs ''owner-1'' 2 twoLocks)
                            = Inr u)"
    by blast
  then have fails: "\<exists>err. fst (acquireMultipleLocks utcZone compareStrings 60000 ?rs ''owner-1'' 2 twoLocks)
                            = Inl err"
    by (cases "fst (acquireMultipleLocks utcZone compareStrings 60000 ?rs ''owner-1'' 2 twoLocks)") auto
  have notreq: "getLockKey RT_table ''c'' \<notin> keyOf ` set ?rs"
    by (simp add: keyOf_def getLockKey_def)
  from inst coll have a: "sorted_wrt (\<lambda>a b. compareStrings (keyOf a) (keyOf b) \<le> 0)
     (sortedResources compareStrings ?rs)"
    by blast
  from inst fails held
  have b: "snd (acquireMultipleLocks utcZone compareStrings 60000 ?rs ''owner-1'' 2 twoLocks)
             (getLockKey RT_table ''b'') = twoLocks (getLockKey RT_table ''b'')"
    by blast
  from inst fails notreq
  have c: "snd (acquireMultipleLocks utcZone compareStrings 60000 ?rs ''owner-1'' 2 twoLocks)
             (getLockKey RT_table ''c'') = twoLocks (getLockKey RT_table ''c'')"
    by blast
  from a fails b c show ?thesis by blast
qed

text \<open>
  C5 as stated fails on the lock the same owner already held: \<open>owner-1\<close> holds a valid lock
  on table \<open>a\<close>, \<open>owner-2\<close> one on table \<open>b\<close>; \<open>owner-1\<close> asks for both, the call fails on
  \<open>b\<close>, and afterwards the lock on \<open>a\<close> that existed before the call is gone.
\<close>

theorem acquireMultipleLocks_keeps_own_lock_counterexample:
  "fst (acquireMultipleLocks utcZone compareStrings 60000 [(RT_table, ''b''), (RT_table, ''a'')]
          ''owner-1'' 2 twoLocks)
     = Inl (FailedToAcquire RT_table ''b'' (ResourceLockedUntil 120000)) \<and>
   twoLocks (getLockKey RT_table ''a'')
     = Some \<lparr>resourceType = RT_table, resourceId = ''a'', lockedBy = ''owner-1'', lockedAt = 0,
         expiresAt = 120000\<rparr> \<and>
   snd (acquireMultipleLocks utcZone compareStrings 60000 [(RT_table, ''b''), (RT_table, ''a'')]
          ''owner-1'' 2 twoLocks) (getLockKey RT_table ''a'') = None"
  by (simp add: acquireMultipleLocks_def sorted_ba getLockKey_def
        acquireLock_def releaseLock_def twoLocks_def addMinutes_def Let_def)



section \<open>The forward search for a slot (C9)\<close>

lemma addMinutes_fixedOffsetZone:
  "addMinutes (fixedOffsetZone offset) datetime m = datetime + m * 60000"
  by (simp add: addMinutes_def fixedOffsetZone_def)

lemma regularZone_fixedOffsetZone:
  "regularZone (fixedOffsetZone offset) offset"
  by (simp add: regularZone_def fixedOffsetZone_def)

lemma regularZone_newYorkZone:
  "regularZone newYorkZone 0"
  by (simp add: regularZone_def newYorkZone_def)

text \<open>
  The loop ends in every regular zone: each step moves the local time of the probe
  forward by at least 30 minutes, and the probe is never more than the bound behind its
  local time.
\<close>

lemma searchSlots_returns:
  assumes "regularZone zone bound"
  shows "\<exists>result. searchSlots zone st ts d searchEnd checkTime = Some result"
proof (induction "nat (searchEnd + bound - localTime zone checkTime)" arbitrary: checkTime
         rule: less_induct)
  case less
  show ?case
  proof (cases "checkTime < searchEnd")
    case False
    then show ?thesis
      by (subst searchSlots.simps) simp
  next
    case True
    let ?next = "addMinutes zone checkTime SLOT_DURATION_MINUTES"
    from assms have "localTime zone checkTime + 1800000 \<le> localTime zone ?next"
      by (simp add: regularZone_def addMinutes_def SLOT_DURATION_MINUTES_def)
    moreover from assms have "localTime zone checkTime \<le> checkTime + bound"
      by (simp add: regularZone_def)
    ultimately have "nat (searchEnd + bound - localTime zone ?next)
                       < nat (searchEnd + bound - localTime zone checkTime)"
      using True by linarith
    from less [OF this] obtain result where
      "searchSlots zone st ts d searchEnd ?next = Some result"
      by blast
    with True show ?thesis
      by (subst searchSlots.simps) (simp split: option.splits)
  qed
qed

lemma getNextAvailableSlot_returns:
  assumes "regularZone zone bound"
  shows "\<exists>result. getNextAvailableSlot zone clock st partySize fromTime durationMinutes
                    = Some result"
proof -
  have "\<exists>result. map_option Inr (searchSlots zone st ts d searchEnd checkTime)
                   = Some (result :: JsError + AvailabilitySlot option)"
    for ts d searchEnd checkTime
    using searchSlots_returns [OF assms, of st ts d searchEnd checkTime] by auto
  then show ?thesis
    unfolding getNextAvailableSlot_def Let_def
    by (simp split: JsDate.splits JsNumber.splits option.splits)
qed

text \<open>
  With no table of the capacity in service the result is \<open>null\<close>, whatever the other
  arguments are. With such a table, a start that does not parse or a duration that is
  no number makes the call throw.
\<close>

lemma getNextAvailableSlot_no_table:
  "filter (\<lambda>t. t_capacity t \<ge> partySize \<and> t_status t \<noteq> OUT_OF_SERVICE) (getAll (tables st)) = []
     \<Longrightarrow> getNextAvailableSlot zone clock st partySize fromTime durationMinutes = Some (Inr None)"
  by (simp add: getNextAvailableSlot_def findByCapacity_def Let_def conj_commute)

lemma getNextAvailableSlot_throws:
  assumes "filter (\<lambda>t. t_capacity t \<ge> partySize \<and> t_status t \<noteq> OUT_OF_SERVICE)
             (getAll (tables st)) \<noteq> []"
    and "fromTime = Some InvalidDate \<or> durationMinutes = Some NaN"
  shows "getNextAvailableSlot zone clock st partySize fromTime durationMinutes
           = Some (Inl RangeError)"
  using assms
  by (auto simp: getNextAvailableSlot_def findByCapacity_def Let_def conj_commute
        split: JsDate.splits JsNumber.splits option.splits)

text \<open>
  In a zone at a fixed offset from UTC, with a start that parses and a duration that is a
  number, the result is that of the specification's search over the 48 instants
  \<open>fromTime + k * 30min\<close>, \<open>k < 48\<close>.
\<close>

lemma searchSlots_probes:
  "k \<le> 48 \<Longrightarrow>
   searchSlots (fixedOffsetZone offset) st ts d (fromTime + 86400000)
       (fromTime + int k * 1800000)
     = Some (firstProbe (\<lambda>t. firstFreeTable st ts t (t + d * 60000))
               (map (\<lambda>j. fromTime + int j * 1800000) [k..<48]))"
proof (induction "48 - k" arbitrary: k)
  case 0
  then have k: "k = 48" by simp
  show ?case
    unfolding k by (subst searchSlots.simps) simp
next
  case (Suc n)
  then have lt: "k < 48" and n: "n = 48 - Suc k" and le: "Suc k \<le> 48" by simp_all
  have next_t: "addMinutes (fixedOffsetZone offset) (fromTime + int k * 1800000)
                  SLOT_DURATION_MINUTES
                  = fromTime + int (Suc k) * 1800000"
    by (simp add: addMinutes_fixedOffsetZone SLOT_DURATION_MINUTES_def)
  have inside: "fromTime + int k * 1800000 < fromTime + 86400000"
    using lt by simp
  have up: "[k..<48] = k # [Suc k..<48]"
    using lt by (simp add: upt_conv_Cons)
  show ?case
    apply (subst searchSlots.simps)
    apply (simp only: inside if_True next_t Suc.hyps(1) [OF n le] up list.map firstProbe.simps)
    apply (simp add: addMinutes_fixedOffsetZone split: option.splits)
    done
qed

lemma getNextAvailableSlot_fixed_offset:
  "getNextAvailableSlot (fixedOffsetZone offset) clock st partySize
       (Some (Instant fromTime)) (Some (Number durationMinutes))
     = Some (Inr (findNextAvailable st partySize fromTime durationMinutes))"
proof -
  have up: "[0..<48] = 0 # [Suc 0..<48]" by (simp add: upt_conv_Cons)
  have rest: "searchSlots (fixedOffsetZone offset) st ts durationMinutes
                (fromTime + 86400000) (fromTime + 1800000)
          = Some (firstProbe (\<lambda>t. firstFreeTable st ts t (t + durationMinutes * 60000))
                    (map (\<lambda>j. fromTime + int j * 1800000) [Suc 0..<48]))" for ts
    using searchSlots_probes [of "Suc 0" offset st ts durationMinutes fromTime]
    by simp
  show ?thesis
    unfolding getNextAvailableSlot_def findNextAvailable_def probeInstants_def up
    by (simp add: rest findByCapacity_def Let_def addMinutes_fixedOffsetZone
          SLOT_DURATION_MINUTES_def conj_commute split: option.splits cong: option.case_cong)
qed

lemma firstFreeTable_Some:
  "firstFreeTable st ts s e = Some slot \<Longrightarrow>
     \<exists>t \<in> set ts. slot = slotFor t s e \<and> isTableAvailable st (t_id t) s e"
  by (induction ts) (auto split: if_splits)

lemma firstFreeTable_None:
  "firstFreeTable st ts s e = None \<longleftrightarrow> (\<forall>t \<in> set ts. \<not> isTableAvailable st (t_id t) s e)"
  by (induction ts) auto

lemma firstProbe_Some:
  "firstProbe f ts = Some x \<Longrightarrow>
     \<exists>i < length ts. f (ts ! i) = Some x \<and> (\<forall>j < i. f (ts ! j) = None)"
proof (induction ts)
  case Nil
  then show ?case by simp
next
  case (Cons t ts)
  show ?case
  proof (cases "f t")
    case None
    with Cons obtain i where i: "i < length ts" "f (ts ! i) = Some x" "\<forall>j < i. f (ts ! j) = None"
      by auto
    have "\<forall>j < Suc i. f ((t # ts) ! j) = None"
      using None i(3) by (auto simp: nth_Cons split: nat.splits)
    with i show ?thesis by (intro exI [of _ "Suc i"]) simp
  next
    case (Some y)
    with Cons.prems show ?thesis by (intro exI [of _ 0]) simp
  qed
qed

lemmas search_defs =
  getNextAvailableSlot_def searchSlots.simps findByCapacity_def getAll_def getById_def
  isTableAvailable_def findByTimeRange_def notFinished_def slotFor_def addMinutes_def
  newYorkZone_def bookedUntil_def exampleTable_def exampleReservation_def
  SLOT_DURATION_MINUTES_def Let_def

text \<open>
  C9 fails on the code. The steps are taken on the local clock of the process
  (\<open>setMinutes\<close>), not in fixed increments of 30 minutes. In New York on 2024-11-03, with
  the table booked until 06:00:00Z and the search starting at 04:00:00Z for 30 minutes,
  the probe after 05:30:00Z is 07:00:00Z: the code returns the slot at 07:00:00Z although
  the table is free at 06:00:00Z, the fifth instant of the search in steps of 30
  minutes. With the table booked until 04:30:00Z of the next day, it returns the slot
  that starts then, 24 hours and 30 minutes after the start of the search and none of
  its 48 instants, where the search bounded by 24 hours finds no slot. And with a table
  of the capacity in service, a start that does not parse or a duration that is no
  number makes the call throw a \<open>RangeError\<close> instead of returning a result.
\<close>

theorem getNextAvailableSlot_steps_on_local_clock:
  "addMinutes newYorkZone 1730611800000 SLOT_DURATION_MINUTES = 1730611800000 + 90 * 60000 \<and>
   getNextAvailableSlot newYorkZone 0 (bookedUntil 1730613600000) 2
       (Some (Instant 1730606400000)) (Some (Number 30))
     = Some (Inr (Some (slotFor exampleTable 1730617200000 1730619000000))) \<and>
   findNextAvailable (bookedUntil 1730613600000) 2 1730606400000 30
     = Some (slotFor exampleTable 1730613600000 1730615400000) \<and>
   getNextAvailableSlot newYorkZone 0 (bookedUntil 1730694600000) 2
       (Some (Instant 1730606400000)) (Some (Number 30))
     = Some (Inr (Some (slotFor exampleTable 1730694600000 1730696400000))) \<and>
   1730694600000 \<notin> set (probeInstants 1730606400000) \<and>
   findNextAvailable (bookedUntil 1730694600000) 2 1730606400000 30 = None \<and>
   getNextAvailableSlot utcZone 0 exampleStores 2 (Some InvalidDate) (Some (Number 90))
     = Some (Inl RangeError) \<and>
   getNextAvailableSlot utcZone 0 exampleStores 2 (Some (Instant 7200000)) (Some NaN)
     = Some (Inl RangeError)"
proof -
  have step: "addMinutes newYorkZone 1730611800000 SLOT_DURATION_MINUTES
                = 1730611800000 + 90 * 60000"
    by (simp add: addMinutes_def newYorkZone_def SLOT_DURATION_MINUTES_def)
  have code1: "getNextAvailableSlot newYorkZone 0 (bookedUntil 1730613600000) 2
                   (Some (Instant 1730606400000)) (Some (Number 30))
                 = Some (Inr (Some (slotFor exampleTable 1730617200000 1730619000000)))"
    by (simp add: search_defs)
  have spec1: "findNextAvailable (bookedUntil 1730613600000) 2 1730606400000 30
                 = Some (slotFor exampleTable 1730613600000 1730615400000)"
    by code_simp
  have code2: "getNextAvailableSlot newYorkZone 0 (bookedUntil 1730694600000) 2
                   (Some (Instant 1730606400000)) (Some (Number 30))
                 = Some (Inr (Some (slotFor exampleTable 1730694600000 1730696400000)))"
    by (simp add: search_defs)
  have spec2: "findNextAvailable (bookedUntil 1730694600000) 2 1730606400000 30 = None"
    by code_simp
  have throw1: "getNextAvailableSlot utcZone 0 exampleStores 2 (Some InvalidDate)
                    (Some (Number 90)) = Some (Inl RangeError)"
    by code_simp
  have throw2: "getNextAvailableSlot utcZone 0 exampleStores 2 (Some (Instant 7200000))
                    (Some NaN) = Some (Inl RangeError)"
    by code_simp
  have outside: "1730694600000 \<notin> set (probeInstants 1730606400000)"
    by code_simp
  from step code1 spec1 code2 outside spec2 throw1 throw2 show ?thesis
    by (intro conjI)
qed

section \<open>The estimated wait time (C8)\<close>

lemma hd_sortBy_least:
  fixes key :: "'a \<Rightarrow> int"
  assumes "xs \<noteq> []"
  shows "\<exists>x rest. sortBy (\<lambda>a b. key a - key b) xs = x # rest \<and> x \<in> set xs
           \<and> (\<forall>y \<in> set xs. key x \<le> key y)"
proof -
  let ?c = "\<lambda>a b. key a - key b"
  have s: "sorted_wrt (\<lambda>a b. ?c a b \<le> 0) (sortBy ?c xs)"
    by (rule sorted_sortBy) auto
  have m: "set (sortBy ?c xs) = set xs" by (rule set_sortBy)
  with assms obtain x rest where e: "sortBy ?c xs = x # rest"
    by (cases "sortBy ?c xs") auto
  with s m have "\<forall>y \<in> set xs. key x \<le> key y" by auto
  with e m show ?thesis by auto
qed

lemma getEstimatedWaitTime_cases:
  "getEstimatedWaitTime now st partySize =
     (if availableNow st partySize then \<lparr>minutes = 0, message = TablesAvailableNow\<rparr>
      else if seatedCandidates st partySize = [] then \<lparr>minutes = - 1, message = UnableToEstimate\<rparr>
      else (let w = max 0 \<lceil>real_of_int (Min (r_endTime ` set (seatedCandidates st partySize)) - now)
                              / 60000\<rceil>
            in \<lparr>minutes = w,
                message = (if w \<le> 15 then ShortWaitExpected else EstimatedWait w)\<rparr>))"
proof -
  have av: "findAvailableForPartySize (tables st) partySize \<noteq> [] \<longleftrightarrow> availableNow st partySize"
    by (auto simp: findAvailableForPartySize_def availableNow_def filter_empty_conv)
  have sc: "filter (\<lambda>r. case getById (tables st) (orString (r_tableId r) []) of
                                  None \<Rightarrow> False
                                | Some table \<Rightarrow> t_capacity table \<ge> partySize)
                      (reservation_findByStatus (reservations st) SEATED)
              = seatedCandidates st partySize"
    by (simp add: seatedCandidates_def reservation_findByStatus_def conj_commute)
  show ?thesis
  proof (cases "availableNow st partySize \<or> seatedCandidates st partySize = []")
    case True
    then show ?thesis
      unfolding getEstimatedWaitTime_def sc av by (auto simp: sortBy_def)
  next
    case False
    then have ne: "seatedCandidates st partySize \<noteq> []" by simp
    from hd_sortBy_least [OF ne, of r_endTime] obtain x rest where
      x: "sortBy (\<lambda>a b. r_endTime a - r_endTime b) (seatedCandidates st partySize) = x # rest"
         "x \<in> set (seatedCandidates st partySize)"
         "\<forall>y \<in> set (seatedCandidates st partySize). r_endTime x \<le> r_endTime y"
      by blast
    have "Min (r_endTime ` set (seatedCandidates st partySize)) = r_endTime x"
      using x(2,3) by (intro Min_eqI) auto
    moreover have "\<lceil>real_of_int (r_endTime x - now) / 60000\<rceil> = - ((now - r_endTime x) div 60000)"
      using ceiling_divide_eq_div [of "r_endTime x - now" 60000, where ?'a = real] by simp
    ultimately show ?thesis
      using False unfolding getEstimatedWaitTime_def sc av x(1) by (simp add: Let_def)
  qed
qed

text \<open>
  C8, as the code has it. With a table available now for the party the result is 0
  minutes. Otherwise, with at least one SEATED reservation on a table of sufficient
  capacity, it is the ceiling of the minutes from now to the earliest end among them,
  and not less than 0. Otherwise the result carries the number \<open>-1\<close> in \<open>minutes\<close>,
  with the message that the wait cannot be estimated; \<open>-1\<close> is returned in this case only.
\<close>

theorem getEstimatedWaitTime_result:
  "(availableNow st partySize \<longrightarrow>
      getEstimatedWaitTime now st partySize = \<lparr>minutes = 0, message = TablesAvailableNow\<rparr>) \<and>
   (\<not> availableNow st partySize \<and> seatedCandidates st partySize \<noteq> [] \<longrightarrow>
      minutes (getEstimatedWaitTime now st partySize)
        = max 0 \<lceil>real_of_int (Min (r_endTime ` set (seatedCandidates st partySize)) - now)
                  / 60000\<rceil>) \<and>
   (\<not> availableNow st partySize \<and> seatedCandidates st partySize = [] \<longrightarrow>
      getEstimatedWaitTime now st partySize = \<lparr>minutes = - 1, message = UnableToEstimate\<rparr>) \<and>
   (minutes (getEstimatedWaitTime now st partySize) = - 1 \<longleftrightarrow>
      \<not> availableNow st partySize \<and> seatedCandidates st partySize = [])"
proof -
  have "max (0::int) x \<noteq> - 1" for x
    by (cases "0 \<le> x") (simp_all add: max_def)
  then have nn: "max (0::int) x = - 1 \<longleftrightarrow> False" for x
    by blast
  show ?thesis
    by (simp add: getEstimatedWaitTime_cases Let_def nn)
qed

theorem getEstimatedWaitTime_result_witness:
  "getEstimatedWaitTime 11880001 freeStores 2 = \<lparr>minutes = 0, message = TablesAvailableNow\<rparr> \<and>
   minutes (getEstimatedWaitTime 11880001 seatedStores 2) = 12 \<and>
   getEstimatedWaitTime 11880001 exampleStores 2 = \<lparr>minutes = - 1, message = UnableToEstimate\<rparr>"
proof -
  have free: "availableNow freeStores 2"
    by (simp add: availableNow_def freeStores_def exampleTable_def getAll_def)
  have busy: "\<not> availableNow seatedStores 2"
    and cand: "seatedCandidates seatedStores 2 = [exampleReservation\<lparr>r_status := SEATED\<rparr>]"
    by (simp_all add: availableNow_def seatedCandidates_def seatedStores_def exampleTable_def
          exampleReservation_def getAll_def getById_def orString_def)
  have busy': "\<not> availableNow exampleStores 2"
    and none: "seatedCandidates exampleStores 2 = []"
    by (simp_all add: availableNow_def seatedCandidates_def exampleStores_def exampleTable_def
          exampleReservation_def getAll_def getById_def orString_def)
  from getEstimatedWaitTime_result [of freeStores 2 11880001] free
  have a: "getEstimatedWaitTime 11880001 freeStores 2
             = \<lparr>minutes = 0, message = TablesAvailableNow\<rparr>"
    by blast
  from getEstimatedWaitTime_result [of seatedStores 2 11880001] busy cand
  have "minutes (getEstimatedWaitTime 11880001 seatedStores 2)
          = max 0 \<lceil>real_of_int (Min (r_endTime ` set [exampleReservation\<lparr>r_status := SEATED\<rparr>])
                                    - 11880001) / 60000\<rceil>"
    by simp
  also have "\<dots> = max 0 \<lceil>real_of_int 719999 / 60000\<rceil>"
    by (simp add: exampleReservation_def)
  also have "\<dots> = 12"
    by simp
  finally have b: "minutes (getEstimatedWaitTime 11880001 seatedStores 2) = 12" .
  from getEstimatedWaitTime_result [of exampleStores 2 11880001] busy' none
  have c: "getEstimatedWaitTime 11880001 exampleStores 2
             = \<lparr>minutes = - 1, message = UnableToEstimate\<rparr>"
    by blast
  from a b c show ?thesis by blast
qed

text \<open>
  C8 as stated fails where it promises a result that is not a number of minutes: with
  the only table RESERVED and no SEATED reservation, the \<open>minutes\<close> field of the result
  is the number \<open>-1\<close>.
\<close>

theorem getEstimatedWaitTime_unknown_counterexample:
  "minutes (getEstimatedWaitTime 11880001 exampleStores 2) = - 1"
  by (simp add: getEstimatedWaitTime_def findAvailableForPartySize_def
        reservation_findByStatus_def exampleStores_def exampleTable_def exampleReservation_def
        getAll_def sortBy_def)

section \<open>The bounds of a day (C6)\<close>

text \<open>
  The calendar functions are inverse to each other: the civil date of a day number has
  that day number, and from 1970 on its year is far from the two-digit years that
  \<open>Date.UTC\<close> reads as 19xx.
\<close>

lemma years_of_era_ok: "yearsOk 400 0"
  by code_simp


lemma yearsOk_all: "yearsOk k y \<Longrightarrow> j < k \<Longrightarrow> yearOk (y + int j)"
proof (induction k arbitrary: y j)
  case 0
  then show ?case by simp
next
  case (Suc k)
  show ?case
  proof (cases j)
    case 0
    with Suc.prems show ?thesis by simp
  next
    case (Suc i)
    with Suc.prems Suc.IH [of "y + 1" i] show ?thesis by (simp add: add.assoc)
  qed
qed

lemma yearTable:
  assumes "0 \<le> y" "y < 400"
  shows "365 * y \<le> yearEstimate (daysBeforeYear y)"
    and "yearEstimate (daysBeforeYear (y + 1) - 1) < 365 * (y + 1)"
proof -
  from assms have "nat y < 400" by simp
  from yearsOk_all [OF years_of_era_ok this] assms have "yearOk y" by simp
  then show "365 * y \<le> yearEstimate (daysBeforeYear y)"
    and "yearEstimate (daysBeforeYear (y + 1) - 1) < 365 * (y + 1)"
    by (simp_all add: yearOk_def)
qed

lemma div_lipschitz:
  fixes n k d :: int
  assumes "0 \<le> k" "1 \<le> d"
  shows "(n + k) div d \<le> n div d + k"
proof -
  have "k * 1 \<le> k * d" using assms by (intro mult_left_mono) simp_all
  then have "n + k \<le> n + k * d" by simp
  then have "(n + k) div d \<le> (n + k * d) div d"
    using assms(2) by (intro zdiv_mono1) simp_all
  also have "\<dots> = n div d + k" using assms(2) by simp
  finally show ?thesis .
qed


lemma yearEstimate_mono:
  assumes "0 \<le> n" "n \<le> n'" "n' \<le> 146096"
  shows "yearEstimate n \<le> yearEstimate n'"
proof -
  have "0 \<le> n' - n" using assms by linarith
  from div_lipschitz [OF this, of 1460 n]
  have a: "n' div 1460 \<le> n div 1460 + (n' - n)" by simp
  have b: "n div 36524 \<le> n' div 36524"
    by (rule zdiv_mono1) (use assms in linarith, simp)
  have small: "m div 146096 = 0" if "0 \<le> m" "m < 146096" for m :: int
    using that by (rule div_pos_pos_trivial)
  show ?thesis
  proof (cases "n' < 146096")
    case True
    with assms have "n < 146096" by linarith
    with small [of n] small [of n'] True assms
    have "n div 146096 = 0" "n' div 146096 = 0" by linarith+
    with a b show ?thesis unfolding yearEstimate_def by linarith
  next
    case False
    with assms have top: "n' = 146096" by linarith
    show ?thesis
    proof (cases "n = n'")
      case True
      then show ?thesis by simp
    next
      case False
      with assms top have lt: "n \<le> 146095" by linarith
      have "n div 36524 \<le> 146095 div 36524"
        by (rule zdiv_mono1) (use lt in linarith, simp)
      then have b': "n div 36524 \<le> 3" by simp
      from lt assms small [of n] have c: "n div 146096 = 0" by linarith
      have n': "(146096 :: int) div 36524 = 4" "(146096 :: int) div 146096 = 1" by simp_all
      from a b' c n' show ?thesis unfolding yearEstimate_def top by linarith
    qed
  qed
qed


lemma succ_div:
  fixes y d :: int
  assumes "1 < d"
  shows "(y + 1) div d = y div d + (if y mod d = d - 1 then 1 else 0)"
proof -
  have one: "(1 :: int) div d = 0" "(1 :: int) mod d = 1"
    using assms by simp_all
  have eq: "(y + 1) div d = y div d + (y mod d + 1) div d"
    using div_add1_eq [of y 1 d] by (simp add: one)
  have lo: "0 \<le> y mod d" and hi: "y mod d < d"
    using assms by simp_all
  show ?thesis
  proof (cases "y mod d = d - 1")
    case True
    then have "(y mod d + 1) div d = 1" using assms by simp
    with eq True show ?thesis by simp
  next
    case False
    with hi have "y mod d + 1 < d" by linarith
    with lo have "(y mod d + 1) div d = 0" by (intro div_pos_pos_trivial) linarith+
    with eq False show ?thesis by simp
  qed
qed

lemma daysBeforeYear_step:
  "365 \<le> daysBeforeYear (y + 1) - daysBeforeYear y \<and>
   daysBeforeYear (y + 1) - daysBeforeYear y \<le> 366"
proof -
  have four: "(y + 1) div 4 = y div 4 + (if y mod 4 = 3 then 1 else 0)"
    using succ_div [of 4 y] by simp
  have hundred: "(y + 1) div 100 = y div 100 + (if y mod 100 = 99 then 1 else 0)"
    using succ_div [of 100 y] by simp
  have "y mod 4 = (y mod 100) mod 4"
    by (simp add: mod_mod_cancel)
  then have link: "y mod 100 = 99 \<Longrightarrow> y mod 4 = 3" by simp
  show ?thesis
  proof (cases "y mod 100 = 99")
    case True
    with link four hundred show ?thesis unfolding daysBeforeYear_def by simp
  next
    case False
    with four hundred show ?thesis unfolding daysBeforeYear_def by (cases "y mod 4 = 3") simp_all
  qed
qed


lemma year_of_day_aux:
  "0 \<le> n \<Longrightarrow> n < daysBeforeYear (int k) \<Longrightarrow>
   \<exists>y. 0 \<le> y \<and> y < int k \<and> daysBeforeYear y \<le> n \<and> n < daysBeforeYear (y + 1)"
proof (induction k)
  case 0
  then show ?case by (simp add: daysBeforeYear_def)
next
  case (Suc k)
  show ?case
  proof (cases "n < daysBeforeYear (int k)")
    case True
    with Suc obtain y where "0 \<le> y" "y < int k" "daysBeforeYear y \<le> n"
      "n < daysBeforeYear (y + 1)" by blast
    then show ?thesis by (intro exI [of _ y]) simp
  next
    case False
    have "int (Suc k) = int k + 1" by simp
    with Suc.prems have "n < daysBeforeYear (int k + 1)" by (simp only:)
    with False show ?thesis
      by (intro exI [of _ "int k"]) simp
  qed
qed

lemma yearEstimate_year:
  assumes "0 \<le> n" "n \<le> 146096"
  shows "0 \<le> yearEstimate n div 365 \<and> yearEstimate n div 365 \<le> 399 \<and>
         0 \<le> n - daysBeforeYear (yearEstimate n div 365) \<and>
         n - daysBeforeYear (yearEstimate n div 365) \<le> 365"
proof -
  have d400: "daysBeforeYear 400 = 146096" and d399: "daysBeforeYear 399 = 145731"
    by (simp_all add: daysBeforeYear_def)
  have "\<exists>y. 0 \<le> y \<and> y \<le> 399 \<and> daysBeforeYear y \<le> n \<and> n - daysBeforeYear y \<le> 365 \<and>
            365 * y \<le> yearEstimate n \<and> yearEstimate n < 365 * (y + 1)"
  proof (cases "n = 146096")
    case True
    have "yearEstimate 146096 = 145999" by (simp add: yearEstimate_def)
    with True d399 show ?thesis by (intro exI [of _ 399]) simp
  next
    case False
    with assms have "n < daysBeforeYear (int 400)" by (simp add: d400)
    from year_of_day_aux [OF assms(1) this] obtain y where
      y: "0 \<le> y" "y < 400" "daysBeforeYear y \<le> n" "n < daysBeforeYear (y + 1)"
      by auto
    from daysBeforeYear_step [of y] have len: "daysBeforeYear (y + 1) - daysBeforeYear y \<le> 366"
      by simp
    have nonneg: "0 \<le> daysBeforeYear y"
      using y(1) unfolding daysBeforeYear_def
      using zdiv_mono2 [of y 4 100] by (simp add: algebra_simps)
    have top: "daysBeforeYear (y + 1) - 1 \<le> 146096"
    proof -
      from y(2) have "y + 1 \<le> 400" by simp
      then have "(y + 1) div 4 \<le> 400 div 4" by (intro zdiv_mono1) simp_all
      moreover have "0 \<le> (y + 1) div 100" using y(1) by simp
      ultimately show ?thesis using \<open>y + 1 \<le> 400\<close> unfolding daysBeforeYear_def by simp
    qed
    from yearTable [OF y(1,2)] have lo: "365 * y \<le> yearEstimate (daysBeforeYear y)"
      and hi: "yearEstimate (daysBeforeYear (y + 1) - 1) < 365 * (y + 1)" by simp_all
    from yearEstimate_mono [OF nonneg y(3) assms(2)] lo
    have a: "365 * y \<le> yearEstimate n" by linarith
    from y(4) have "n \<le> daysBeforeYear (y + 1) - 1" by simp
    from yearEstimate_mono [OF assms(1) this top] hi
    have b: "yearEstimate n < 365 * (y + 1)" by linarith
    from y len a b show ?thesis by (intro exI [of _ y]) simp
  qed
  then obtain y where y: "0 \<le> y" "y \<le> 399" "daysBeforeYear y \<le> n"
    "n - daysBeforeYear y \<le> 365" "365 * y \<le> yearEstimate n" "yearEstimate n < 365 * (y + 1)"
    by blast
  have "yearEstimate n div 365 = y"
  proof -
    have "yearEstimate n = y * 365 + (yearEstimate n - 365 * y)" by simp
    moreover have "0 \<le> yearEstimate n - 365 * y" "yearEstimate n - 365 * y < 365"
      using y(5,6) by simp_all
    ultimately show ?thesis
      by (metis div_pos_pos_trivial div_mult_self3 add.right_neutral zero_neq_numeral)
  qed
  with y show ?thesis by simp
qed


lemma days_from_civil_parts:
  assumes "0 \<le> yoe" "yoe < 400" "0 \<le> mp" "mp \<le> 11"
  shows "days_from_civil
           (if (if mp < 10 then mp + 3 else mp - 9) \<le> 2 then yoe + era * 400 + 1
            else yoe + era * 400)
           (if mp < 10 then mp + 3 else mp - 9) dd
         = era * 146097 + (yoe * 365 + yoe div 4 - yoe div 100
                            + ((153 * mp + 2) div 5 + dd - 1)) - 719468"
proof -
  have e: "(yoe + era * 400) div 400 = era"
    using assms(1,2) by simp
  show ?thesis
  proof (cases "mp < 10")
    case True
    with assms(3) show ?thesis
      by (simp add: days_from_civil_def Let_def e)
  next
    case False
    with assms(4) show ?thesis
      by (simp add: days_from_civil_def Let_def e)
  qed
qed

lemma civil_from_days_shape:
  obtains era yoe mp dd where
    "civil_from_days z =
        (if (if mp < 10 then mp + 3 else mp - 9) \<le> 2 then yoe + era * 400 + 1
         else yoe + era * 400,
         if mp < 10 then mp + 3 else mp - 9, dd)"
    and "era = (z + 719468) div 146097"
    and "0 \<le> yoe" and "yoe < 400" and "0 \<le> mp" and "mp \<le> 11"
    and "era * 146097 + (yoe * 365 + yoe div 4 - yoe div 100
                           + ((153 * mp + 2) div 5 + dd - 1)) - 719468 = z"
proof -
  define era where "era = (z + 719468) div 146097"
  define doe where "doe = z + 719468 - era * 146097"
  define yoe where "yoe = (doe - doe div 1460 + doe div 36524 - doe div 146096) div 365"
  define doy where "doy = doe - (365 * yoe + yoe div 4 - yoe div 100)"
  define mp where "mp = (5 * doy + 2) div 153"
  define dd where "dd = doy - (153 * mp + 2) div 5 + 1"
  have cfd: "civil_from_days z =
        (if (if mp < 10 then mp + 3 else mp - 9) \<le> 2 then yoe + era * 400 + 1
         else yoe + era * 400,
         if mp < 10 then mp + 3 else mp - 9, dd)"
    unfolding dd_def mp_def doy_def yoe_def doe_def era_def civil_from_days_def Let_def
    by (rule refl)
  have "doe = (z + 719468) mod 146097"
    unfolding doe_def era_def by (simp add: minus_div_mult_eq_mod)
  then have doe: "0 \<le> doe" "doe \<le> 146096" by simp_all
  have "yoe = yearEstimate doe div 365"
    by (simp add: yoe_def yearEstimate_def)
  with yearEstimate_year [OF doe]
  have yoe: "0 \<le> yoe" "yoe < 400" and doy: "0 \<le> doy" "doy \<le> 365"
    by (simp_all add: doy_def daysBeforeYear_def)
  have mp: "0 \<le> mp" "mp \<le> 11"
  proof -
    from doy(1) have "0 \<le> 5 * doy + 2" by simp
    then show "0 \<le> mp" unfolding mp_def by (rule pos_imp_zdiv_nonneg_iff [THEN iffD2, rotated]) simp
    from doy(2) have "5 * doy + 2 \<le> 1827" by simp
    then have "(5 * doy + 2) div 153 \<le> 1827 div 153" by (intro zdiv_mono1) simp_all
    then show "mp \<le> 11" by (simp add: mp_def)
  qed
  have "era * 146097 + (yoe * 365 + yoe div 4 - yoe div 100
                           + ((153 * mp + 2) div 5 + dd - 1)) - 719468 = z"
    by (simp add: dd_def doy_def doe_def)
  with cfd yoe mp show thesis
    by (intro that [of mp yoe era dd]) (simp_all add: era_def)
qed

lemma days_from_civil_of_civil_from_days:
  "(case civil_from_days z of (y, m, d) \<Rightarrow> days_from_civil y m d) = z"
proof -
  obtain era yoe mp dd where
    cfd: "civil_from_days z =
        (if (if mp < 10 then mp + 3 else mp - 9) \<le> 2 then yoe + era * 400 + 1
         else yoe + era * 400,
         if mp < 10 then mp + 3 else mp - 9, dd)"
    and b: "0 \<le> yoe" "yoe < 400" "0 \<le> mp" "mp \<le> 11"
    and z: "era * 146097 + (yoe * 365 + yoe div 4 - yoe div 100
                           + ((153 * mp + 2) div 5 + dd - 1)) - 719468 = z"
    by (rule civil_from_days_shape [of z]) blast
  show ?thesis
    by (simp only: cfd prod.case days_from_civil_parts [OF b] z)
qed

lemma civil_from_days_year:
  assumes "0 \<le> z"
  shows "(case civil_from_days z of (y, m, d) \<Rightarrow> 1600 \<le> y)"
proof -
  obtain era yoe mp dd where
    cfd: "civil_from_days z =
        (if (if mp < 10 then mp + 3 else mp - 9) \<le> 2 then yoe + era * 400 + 1
         else yoe + era * 400,
         if mp < 10 then mp + 3 else mp - 9, dd)"
    and era: "era = (z + 719468) div 146097"
    and b: "0 \<le> yoe"
    by (rule civil_from_days_shape [of z]) blast
  from assms have "719468 div 146097 \<le> (z + 719468) div 146097"
    by (intro zdiv_mono1) simp_all
  then have "4 \<le> era" by (simp add: era)
  with b show ?thesis by (simp add: cfd)
qed

lemma DateUTC_of_civil_from_days:
  assumes "0 \<le> z"
  shows "(case civil_from_days z of (year, month, day) \<Rightarrow> DateUTC year (month - 1) day 0 0 0 0)
           = z * 86400000"
proof -
  obtain year month day where c: "civil_from_days z = (year, month, day)"
    by (cases "civil_from_days z") auto
  from civil_from_days_year [OF assms] c have "1600 \<le> year" by simp
  moreover from days_from_civil_of_civil_from_days [of z] c
  have "days_from_civil year month day = z" by simp
  ultimately show ?thesis
    by (simp add: c DateUTC_def)
qed

text \<open>
  What \<open>getDayBoundsInTimezone\<close> returns. For an invalid time zone it throws. For a valid
  zone and a local time from 1970 on, the start is the number of the local day times 24
  hours, that is 00:00:00.000 UTC of the calendar date that the instant has in the zone,
  and the end is 23:59:59.999 UTC of that date.
\<close>

lemma getDayBoundsInTimezone_invalid:
  "tzdb timezone = None \<Longrightarrow>
     getDayBoundsInTimezone tzdb inputDate timezone = Inl (InvalidTimezone timezone)"
  by (simp add: getDayBoundsInTimezone_def)

lemma getDayBoundsInTimezone_bounds:
  assumes valid: "tzdb timezone = Some offset"
    and recent: "0 \<le> inputDate + offset inputDate"
  shows "getDayBoundsInTimezone tzdb inputDate timezone =
           Inr ((inputDate + offset inputDate) div 86400000 * 86400000,
                (inputDate + offset inputDate) div 86400000 * 86400000 + 86399999)"
proof -
  let ?z = "(inputDate + offset inputDate) div 86400000"
  obtain year month day where c: "civil_from_days ?z = (year, month, day)"
    by (cases "civil_from_days ?z") auto
  from recent have z: "0 \<le> ?z"
    by simp
  from civil_from_days_year [OF z] c have year: "1600 \<le> year"
    by simp
  then have ymd: "formatDate offset inputDate = (year, month, day)"
    by (simp add: formatDate_def c)
  from DateUTC_of_civil_from_days [OF z] c
  have start: "DateUTC year (month - 1) day 0 0 0 0 = ?z * 86400000"
    by simp
  have last: "DateUTC year (month - 1) day 23 59 59 999
                = DateUTC year (month - 1) day 0 0 0 0 + 86399999"
    by (simp add: DateUTC_def Let_def)
  show ?thesis
    by (simp add: getDayBoundsInTimezone_def valid ymd last start)
qed

text \<open>
  So the start is the local midnight only where the zone is at UTC; east of UTC, an
  instant of the early local morning lies before the returned start.
\<close>

lemma getDayBoundsInTimezone_start_after_instant:
  assumes valid: "tzdb timezone = Some offset"
    and recent: "0 \<le> inputDate + offset inputDate"
    and early: "(inputDate + offset inputDate) mod 86400000 < offset inputDate"
  shows "\<not> withinBounds inputDate (getDayBoundsInTimezone tzdb inputDate timezone)"
proof -
  let ?l = "inputDate + offset inputDate"
  have "?l div 86400000 * 86400000 = ?l - ?l mod 86400000"
    by (simp add: minus_mod_eq_div_mult)
  with early have "inputDate < ?l div 86400000 * 86400000"
    by linarith
  moreover note getDayBoundsInTimezone_bounds [of tzdb timezone offset inputDate, OF valid recent]
  ultimately show ?thesis
    by (simp add: withinBounds_def)
qed

text \<open>
  Before the year 100 the date that the formatter prints is read back as a year of the
  20th century: for 15 January of the year 50, and of the year 0 (printed as the year 1
  of its era), in UTC, the bounds are those of 15 January 1950 and 1901.
\<close>

lemma getDayBoundsInTimezone_early_years:
  "getDayBoundsInTimezone exampleTzDb (days_from_civil 50 1 15 * 86400000) ''UTC''
     = Inr (DateUTC 1950 0 15 0 0 0 0, DateUTC 1950 0 15 23 59 59 999) \<and>
   getDayBoundsInTimezone exampleTzDb (days_from_civil 0 1 15 * 86400000) ''UTC''
     = Inr (DateUTC 1901 0 15 0 0 0 0, DateUTC 1901 0 15 23 59 59 999)"
  by code_simp

text \<open>
  C6 fails on the code. At 2024-01-15T20:00:00Z in Asia/Tokyo, where it is 05:00 on the
  16th, \<open>getDayBoundsInTimezone\<close> returns 2024-01-16T00:00:00.000Z and
  2024-01-16T23:59:59.999Z. The instant itself is not within the bounds returned for its
  day: they start four hours after it. The start is 09:00 in Tokyo, not the local
  midnight that opens the day (2024-01-15T15:00:00Z), and the end is one millisecond
  short of the start plus 24 hours.
\<close>

theorem getDayBoundsInTimezone_misses_local_day:
  "getDayBoundsInTimezone exampleTzDb 1705348800000 ''Asia/Tokyo''
     = Inr (1705363200000, 1705449599999) \<and>
   \<not> withinBounds 1705348800000
       (getDayBoundsInTimezone exampleTzDb 1705348800000 ''Asia/Tokyo'') \<and>
   \<not> isLocalDayStart (\<lambda>t. 32400000) 1705348800000 1705363200000 \<and>
   isLocalDayStart (\<lambda>t. 32400000) 1705348800000 1705330800000 \<and>
   withinBounds 1705348800000 (Inr (1705330800000, 1705330800000 + 86400000 - 1))"
proof -
  have a: "getDayBoundsInTimezone exampleTzDb 1705348800000 ''Asia/Tokyo''
             = Inr (1705363200000, 1705449599999)"
    by code_simp
  have b: "\<not> isLocalDayStart (\<lambda>t. 32400000) 1705348800000 1705363200000"
    by (simp add: isLocalDayStart_def)
  have c: "isLocalDayStart (\<lambda>t. 32400000) 1705348800000 1705330800000"
    by (simp add: isLocalDayStart_def)
  from b c show ?thesis
    unfolding a by (simp add: withinBounds_def)
qed

section \<open>Checking availability (C7)\<close>

lemma checkAvailability_never_rejects_party_size:
  "checkAvailability zone tzdb st request \<noteq> Inl INVALID_PARTY_SIZE"
  by (simp add: checkAvailability_def Let_def)

text \<open>
  C7 fails on the code: \<open>checkAvailability\<close> has no check of the party size. With the
  default time zone valid, a request for a party of 0 succeeds and returns a slot for the
  table of capacity 2, for the window of the default 90 minutes, and a request for a
  party of 21 succeeds with no slot; neither is a validation failure.
\<close>

theorem checkAvailability_party_size_unchecked:
  "checkAvailability utcZone exampleTzDb exampleStores
     \<lparr>ar_startTime = 20000000, ar_partySize = 0, ar_timezone = None, ar_durationMinutes = None\<rparr>
     = Inr [slotFor exampleTable 20000000 25400000] \<and>
   checkAvailability utcZone exampleTzDb exampleStores
     \<lparr>ar_startTime = 20000000, ar_partySize = 21, ar_timezone = None, ar_durationMinutes = None\<rparr>
     = Inr []"
  by (simp add: checkAvailability_def findAvailableTables_def findByCapacity_def
        findByTimeRange_def exampleTzDb_def exampleStores_def exampleTable_def
        exampleReservation_def isValidTimezone_def orString_def orNumber_def
        DEFAULT_TIMEZONE_def DEFAULT_DURATION_MINUTES_def calculateEndTime_def addMinutes_def
        utcZone_def fixedOffsetZone_def nameAnn_def
        getAll_def sortBy_def Let_def)

section \<open>The booking invariant (C1)\<close>

text \<open>
  The two operations that check what they do keep the invariant: a status update never
  makes a finished reservation active again, and \<open>createReservation\<close> books a table
  only when no active reservation on it overlaps the window (the new id being fresh).
\<close>

lemma noConflicts_snoc:
  "noConflicts (xs @ [x]) \<longleftrightarrow> noConflicts xs \<and> list_all (\<lambda>y. \<not> conflicting y x) xs"
  by (induction xs) auto

lemma set_items_set: "set (items_set k v items) \<subseteq> insert (k, v) (set items)"
proof (induction items)
  case Nil
  then show ?case by simp
next
  case (Cons p items)
  then show ?case by (cases p) (auto split: if_splits)
qed

lemma set_items_set_subset:
  "set (getAll (items_set k v items)) \<subseteq> insert v (set (getAll items))"
proof
  fix x assume "x \<in> set (getAll (items_set k v items))"
  then obtain k' where "(k', x) \<in> set (items_set k v items)"
    by (auto simp: getAll_def)
  with set_items_set [of k v items] have "(k', x) = (k, v) \<or> (k', x) \<in> set items"
    by blast
  then show "x \<in> insert v (set (getAll items))"
    by (auto simp: getAll_def intro: rev_image_eqI)
qed

lemma noConflicts_replace:
  assumes "noConflicts (getAll items)" and "getById items k = Some e"
    and "\<And>x. conflicting v x \<Longrightarrow> conflicting e x"
    and "\<And>x. conflicting x v \<Longrightarrow> conflicting x e"
  shows "noConflicts (getAll (items_set k v items))"
  using assms(1,2)
proof (induction items)
  case Nil
  then show ?case by (simp add: getById_def)
next
  case (Cons p items)
  obtain k' v' where p: "p = (k', v')" by (cases p)
  show ?case
  proof (cases "k' = k")
    case True
    with Cons.prems p have "v' = e" by (simp add: getById_def)
    with Cons.prems p True assms(3) show ?thesis
      by (auto simp: getAll_def list_all_iff)
  next
    case False
    with Cons.prems p have in_rest: "getById items k = Some e"
      by (simp add: getById_def)
    then have mem: "e \<in> set (getAll items)"
      by (auto simp: getById_def getAll_def dest: map_of_SomeD intro: rev_image_eqI)
    have rest: "noConflicts (getAll items)"
      using Cons.prems p by (simp add: getAll_def)
    note setsub = set_items_set_subset [of k v items]
    have "list_all (\<lambda>r'. \<not> conflicting v' r') (getAll (items_set k v items))"
    proof -
      have old: "\<forall>r' \<in> set (getAll items). \<not> conflicting v' r'"
        using Cons.prems p by (simp add: getAll_def list_all_iff)
      with mem have "\<not> conflicting v' e" by blast
      with assms(4) have "\<not> conflicting v' v" by blast
      with old setsub show ?thesis by (auto simp: list_all_iff)
    qed
    with Cons.IH [OF rest in_rest] p False show ?thesis
      by (simp add: getAll_def)
  qed
qed

lemma updateReservationStatus_preserves_noDoubleBooking:
  assumes "noDoubleBooking st"
  shows "noDoubleBooking (snd (updateReservationStatus now ident newStatus expectedVersion st))"
proof (cases "getById (reservations st) ident")
  case None
  with assms show ?thesis
    by (simp add: noDoubleBooking_def updateReservationStatus_reservations)
next
  case (Some existing)
  show ?thesis
  proof (cases "isValidStatusTransition (r_status existing) newStatus
                  \<and> r_version existing = expectedVersion")
    case False
    with assms Some show ?thesis
      by (auto simp: noDoubleBooking_def updateReservationStatus_reservations)
  next
    case True
    let ?v = "existing\<lparr>r_status := newStatus, r_updatedAt := now,
                 r_version := r_version existing + 1\<rparr>"
    from True have fin: "notFinished newStatus \<Longrightarrow> notFinished (r_status existing)"
      by (cases "r_status existing"; cases newStatus)
         (simp_all add: isValidStatusTransition_def notFinished_def)
    have "noConflicts (getAll (items_set ident ?v (reservations st)))"
      using assms Some fin
      by (intro noConflicts_replace [where e = existing])
         (auto simp: noDoubleBooking_def conflicting_def)
    with True Some show ?thesis
      by (simp add: noDoubleBooking_def updateReservationStatus_reservations)
  qed
qed

lemma findAvailableTables_free:
  assumes "t \<in> set (findAvailableTables st s e partySize None)"
    and "r \<in> set (getAll (reservations st))"
    and "notFinished (r_status r)" and "r_tableId r = Some (t_id t)"
  shows "\<not> (r_startTime r < e \<and> s < r_endTime r)"
  using assms
  by (auto simp: findAvailableTables_def set_sortBy findByTimeRange_def filter_empty_conv Let_def)

lemma selectTable_free:
  assumes "selectTable st request s e = Inr t" and "keyedById (tables st)"
    and "r \<in> set (getAll (reservations st))"
    and "notFinished (r_status r)" and "r_tableId r = Some (t_id t)"
  shows "\<not> (r_startTime r < e \<and> s < r_endTime r)"
proof -
  let ?avail = "findAvailableTables st s e (cr_partySize request) None"
  have "\<exists>t' \<in> set ?avail. t_id t' = t_id t"
  proof (cases "orString (cr_preferredTableId request) [] \<noteq> []
                  \<and> (\<exists>p. getById (tables st) (orString (cr_preferredTableId request) []) = Some p
                           \<and> find (\<lambda>t. t_id t = orString (cr_preferredTableId request) []) ?avail
                                \<noteq> None)")
    case True
    let ?pid = "orString (cr_preferredTableId request) []"
    from True obtain p t' where p: "getById (tables st) ?pid = Some p"
      and f: "find (\<lambda>t. t_id t = ?pid) ?avail = Some t'" by auto
    from f have t': "t' \<in> set ?avail" "t_id t' = ?pid"
      by (auto simp: find_Some_iff)
    from p assms(2) have "t_id p = ?pid"
      by (auto simp: keyedById_def getById_def list_all_iff dest: map_of_SomeD)
    moreover from assms(1) True p f have "t = p"
      by (simp add: selectTable_def Let_def)
    ultimately show ?thesis using t' by auto
  next
    case False
    with assms(1) have "\<exists>rest. ?avail = t # rest"
      by (auto simp: selectTable_def Let_def split: option.splits list.splits if_splits)
    then show ?thesis by auto
  qed
  then obtain t' where "t' \<in> set ?avail" "t_id t' = t_id t" by blast
  with findAvailableTables_free [of t' st s e "cr_partySize request" r] assms(3,4,5)
  show ?thesis by simp
qed

lemma createReservationBody_preserves_noDoubleBooking:
  assumes inv: "noDoubleBooking st" and keyed: "keyedById (tables st)"
    and fresh: "getById (reservations st) reservationId = None"
  shows "noDoubleBooking
           (snd (createReservationBody now customerId reservationId request s e timezone st))"
proof (cases "selectTable st request s e")
  case (Inl err)
  with inv show ?thesis by (simp add: createReservationBody_def)
next
  case (Inr t)
  let ?st' = "snd (createReservationBody now customerId reservationId request s e timezone st)"
  define r where "r = the (getById (reservations ?st') reservationId)"
  have new: "reservations ?st' = items_set reservationId r (reservations st)"
    unfolding r_def using Inr
    by (simp add: createReservationBody_def reservationStore_create_def Let_def
          getById_items_set split: prod.splits)
  have r: "r_tableId r = Some (t_id t)" "r_startTime r = s" "r_endTime r = e"
    unfolding r_def using Inr
    by (simp_all add: createReservationBody_def reservationStore_create_def Let_def
          getById_items_set split: prod.splits)
  have "\<not> conflicting y r" if "y \<in> set (getAll (reservations st))" for y
    using selectTable_free [OF Inr keyed that] r
    by (auto simp: conflicting_def doTimeRangesOverlap_def)
  with inv show ?thesis
    by (simp add: noDoubleBooking_def new items_set_new [OF fresh] getAll_def
          noConflicts_snoc list_all_iff)
qed

lemma createReservation_preserves_noDoubleBooking:
  assumes inv: "noDoubleBooking st" and keyed: "keyedById (tables st)"
    and fresh: "getById (reservations st) reservationId = None"
  shows "noDoubleBooking
           (snd (createReservation zone tzdb now lockOwner customerId reservationId request st))"
proof -
  have body: "noDoubleBooking
           (snd (createReservationBody now customerId reservationId request s e timezone
                   (st\<lparr>locks := l\<rparr>)))" for s e timezone l
    using inv keyed fresh
    by (intro createReservationBody_preserves_noDoubleBooking) (simp_all add: noDoubleBooking_def)
  have locked: "noDoubleBooking (snd (withLock zone now lockOwner rt rid
                  (createReservationBody now customerId reservationId request s e timezone) st))"
    for rt rid s e timezone
  proof (cases "acquireLock zone now rt rid lockOwner DEFAULT_LOCK_TIMEOUT_MINUTES (locks st)")
    case (Pair res l)
    show ?thesis
    proof (cases res)
      case (Inl err)
      with Pair inv show ?thesis by (simp add: withLock_def)
    next
      case (Inr lock)
      with Pair body [of s e timezone l] show ?thesis
        by (cases "createReservationBody now customerId reservationId request s e timezone
                     (st\<lparr>locks := l\<rparr>)")
           (simp add: withLock_def noDoubleBooking_def)
    qed
  qed
  show ?thesis
    using inv locked
    by (simp add: createReservation_def Let_def split: sum.splits option.splits)
qed

text \<open>
  \<open>trim\<close> removes the no-break space and the other Unicode spaces as well: a name made
  of such spaces only is rejected.
\<close>

lemma trim_unicode_white_space:
  "trim [0x20, 0xA0, 0x41, 0x2003] = [0x41] \<and>
   validateWalkInRequest \<lparr>wr_customerName = [0xA0, 0x3000, 0x09], wr_partySize = 2,
                           wr_notes = None\<rparr> = Inl INVALID_CUSTOMER_NAME"
  by (simp add: trim_def isWhiteSpace_def validateWalkInRequest_def)

lemmas evaluation_defs =
  createReservation_def validateCreateRequest_def handleWalkIn_def validateWalkInRequest_def
  handleWalkInBody_def findBestTableForWalkIn_def findAvailableForPartySize_def
  assignWaiterToTable_def
  requestAt_def freeStores_def exampleTable_def exampleTzDb_def trim_def isWhiteSpace_def
  isFutureDateTime_def isValidTimezone_def orString_def orNumber_def
  DEFAULT_TIMEZONE_def DEFAULT_DURATION_MINUTES_def DEFAULT_LOCK_TIMEOUT_MINUTES_def
  calculateEndTime_def addMinutes_def utcZone_def fixedOffsetZone_def nameAnn_def nameBob_def
  nameCy_def withLock_def acquireLock_def releaseLock_def
  createReservationBody_def selectTable_def findAvailableTables_def findByCapacity_def
  findByTimeRange_def notFinished_def getAll_def getById_def sortBy_def findOrCreateCustomer_def
  findByPhone_def findByEmail_def customerStore_create_def findWithLeastTables_def
  waiter_findByStatus_def reservationStore_create_def tableStore_update_def
  spreadTable_def emptyTablePatch_def over_def Let_def
  updateReservationStatus_def isValidStatusTransition_def updateWithVersion_eq
  spread_status_only runTimers_def

lemma step1: "afterFirstBooking =
  \<lparr>customers = [(''c1'', \<lparr>c_id = ''c1'', c_name = nameAnn, c_phone = None, c_email = None,
                         c_notes = None, c_createdAt = 1000, c_updatedAt = 1000\<rparr>)],
   tables = [(''t1'', \<lparr>t_id = ''t1'', t_number = 1, t_capacity = 2, t_status = RESERVED,
                        t_section = Some ''Main'', t_createdAt = 0, t_updatedAt = 1000\<rparr>)],
   waiters = [],
   reservations = [(''rA'', \<lparr>r_id = ''rA'', r_customerId = ''c1'', r_customerName = nameAnn,
       r_partySize = 2, r_tableId = Some ''t1'', r_waiterId = None, r_startTime = 3600000,
       r_endTime = 9000000, r_status = CONFIRMED, r_isWalkIn = False, r_timezone = ''UTC'',
       r_notes = None, r_createdAt = 1000, r_updatedAt = 1000, r_version = 1\<rparr>)],
   locks = Map.empty, timers = []\<rparr>"
  by (simp add: afterFirstBooking_def evaluation_defs)

lemma step2: "afterSecondBooking =
  \<lparr>customers = [(''c1'', \<lparr>c_id = ''c1'', c_name = nameAnn, c_phone = None, c_email = None,
                         c_notes = None, c_createdAt = 1000, c_updatedAt = 1000\<rparr>),
                (''c2'', \<lparr>c_id = ''c2'', c_name = nameBob, c_phone = None, c_email = None,
                         c_notes = None, c_createdAt = 2000, c_updatedAt = 2000\<rparr>)],
   tables = [(''t1'', \<lparr>t_id = ''t1'', t_number = 1, t_capacity = 2, t_status = RESERVED,
                        t_section = Some ''Main'', t_createdAt = 0, t_updatedAt = 2000\<rparr>)],
   waiters = [],
   reservations = [(''rA'', \<lparr>r_id = ''rA'', r_customerId = ''c1'', r_customerName = nameAnn,
       r_partySize = 2, r_tableId = Some ''t1'', r_waiterId = None, r_startTime = 3600000,
       r_endTime = 9000000, r_status = CONFIRMED, r_isWalkIn = False, r_timezone = ''UTC'',
       r_notes = None, r_createdAt = 1000, r_updatedAt = 1000, r_version = 1\<rparr>),
     (''rB'', \<lparr>r_id = ''rB'', r_customerId = ''c2'', r_customerName = nameBob,
       r_partySize = 2, r_tableId = Some ''t1'', r_waiterId = None, r_startTime = 9000000,
       r_endTime = 14400000, r_status = CONFIRMED, r_isWalkIn = False, r_timezone = ''UTC'',
       r_notes = None, r_createdAt = 2000, r_updatedAt = 2000, r_version = 1\<rparr>)],
   locks = Map.empty, timers = []\<rparr>"
  unfolding afterSecondBooking_def step1 by (simp add: evaluation_defs)

lemma step3: "afterCancel =
  \<lparr>customers = [(''c1'', \<lparr>c_id = ''c1'', c_name = nameAnn, c_phone = None, c_email = None,
                         c_notes = None, c_createdAt = 1000, c_updatedAt = 1000\<rparr>),
                (''c2'', \<lparr>c_id = ''c2'', c_name = nameBob, c_phone = None, c_email = None,
                         c_notes = None, c_createdAt = 2000, c_updatedAt = 2000\<rparr>)],
   tables = [(''t1'', \<lparr>t_id = ''t1'', t_number = 1, t_capacity = 2, t_status = CLEANING,
                        t_section = Some ''Main'', t_createdAt = 0, t_updatedAt = 3000\<rparr>)],
   waiters = [],
   reservations = [(''rA'', \<lparr>r_id = ''rA'', r_customerId = ''c1'', r_customerName = nameAnn,
       r_partySize = 2, r_tableId = Some ''t1'', r_waiterId = None, r_startTime = 3600000,
       r_endTime = 9000000, r_status = CANCELLED, r_isWalkIn = False, r_timezone = ''UTC'',
       r_notes = None, r_createdAt = 1000, r_updatedAt = 3000, r_version = 2\<rparr>),
     (''rB'', \<lparr>r_id = ''rB'', r_customerId = ''c2'', r_customerName = nameBob,
       r_partySize = 2, r_tableId = Some ''t1'', r_waiterId = None, r_startTime = 9000000,
       r_endTime = 14400000, r_status = CONFIRMED, r_isWalkIn = False, r_timezone = ''UTC'',
       r_notes = None, r_createdAt = 2000, r_updatedAt = 2000, r_version = 1\<rparr>)],
   locks = Map.empty, timers = [(8000, ''t1'')]\<rparr>"
  unfolding afterCancel_def step2 by (simp add: evaluation_defs)

lemma step4: "afterGrace =
  \<lparr>customers = [(''c1'', \<lparr>c_id = ''c1'', c_name = nameAnn, c_phone = None, c_email = None,
                         c_notes = None, c_createdAt = 1000, c_updatedAt = 1000\<rparr>),
                (''c2'', \<lparr>c_id = ''c2'', c_name = nameBob, c_phone = None, c_email = None,
                         c_notes = None, c_createdAt = 2000, c_updatedAt = 2000\<rparr>)],
   tables = [(''t1'', \<lparr>t_id = ''t1'', t_number = 1, t_capacity = 2, t_status = AVAILABLE,
                        t_section = Some ''Main'', t_createdAt = 0, t_updatedAt = 8000\<rparr>)],
   waiters = [],
   reservations = [(''rA'', \<lparr>r_id = ''rA'', r_customerId = ''c1'', r_customerName = nameAnn,
       r_partySize = 2, r_tableId = Some ''t1'', r_waiterId = None, r_startTime = 3600000,
       r_endTime = 9000000, r_status = CANCELLED, r_isWalkIn = False, r_timezone = ''UTC'',
       r_notes = None, r_createdAt = 1000, r_updatedAt = 3000, r_version = 2\<rparr>),
     (''rB'', \<lparr>r_id = ''rB'', r_customerId = ''c2'', r_customerName = nameBob,
       r_partySize = 2, r_tableId = Some ''t1'', r_waiterId = None, r_startTime = 9000000,
       r_endTime = 14400000, r_status = CONFIRMED, r_isWalkIn = False, r_timezone = ''UTC'',
       r_notes = None, r_createdAt = 2000, r_updatedAt = 2000, r_version = 1\<rparr>)],
   locks = Map.empty, timers = []\<rparr>"
  unfolding afterGrace_def step3 by (simp add: evaluation_defs)

lemma step5:
  "\<not> isl (fst walkInAttempt) \<and>
   map summary (getAll (reservations (snd walkInAttempt))) =
     [(''rA'', Some ''t1'', CANCELLED, 3600000, 9000000),
      (''rB'', Some ''t1'', CONFIRMED, 9000000, 14400000),
      (''rW'', Some ''t1'', SEATED, 7200000, 12600000)]"
  unfolding walkInAttempt_def step4 by (simp add: evaluation_defs summary_def)

text \<open>
  C1 fails on the code, in \<open>handleWalkIn\<close>. Every state of the run up to the walk-in
  satisfies the invariant. After the cancellation the timer sets the table to AVAILABLE
  although the second booking is still CONFIRMED on it; \<open>handleWalkIn\<close> looks at the
  status of the table only, succeeds, and seats the party from 02:00 to 03:30 on the
  table that is booked from 02:30 to 04:00: the state after it violates the invariant.
\<close>

theorem handleWalkIn_double_books:
  "noDoubleBooking freeStores \<and> noDoubleBooking afterFirstBooking \<and>
   noDoubleBooking afterSecondBooking \<and> noDoubleBooking afterCancel \<and>
   noDoubleBooking afterGrace \<and>
   \<not> isl (fst walkInAttempt) \<and>
   map summary (getAll (reservations (snd walkInAttempt))) =
     [(''rA'', Some ''t1'', CANCELLED, 3600000, 9000000),
      (''rB'', Some ''t1'', CONFIRMED, 9000000, 14400000),
      (''rW'', Some ''t1'', SEATED, 7200000, 12600000)] \<and>
   \<not> noDoubleBooking (snd walkInAttempt)"
proof -
  have before: "noDoubleBooking freeStores" "noDoubleBooking afterFirstBooking"
    "noDoubleBooking afterSecondBooking" "noDoubleBooking afterCancel" "noDoubleBooking afterGrace"
    unfolding step1 step2 step3 step4
    by (simp_all add: noDoubleBooking_def freeStores_def getAll_def conflicting_def
          notFinished_def doTimeRangesOverlap_def)
  have "conflicting r r'"
    if "summary r = (''rB'', Some ''t1'', CONFIRMED, 9000000, 14400000)"
      and "summary r' = (''rW'', Some ''t1'', SEATED, 7200000, 12600000)" for r r'
    using that by (simp add: summary_def conflicting_def notFinished_def doTimeRangesOverlap_def)
  moreover obtain a b c where abc: "getAll (reservations (snd walkInAttempt)) = [a, b, c]"
      "summary b = (''rB'', Some ''t1'', CONFIRMED, 9000000, 14400000)"
      "summary c = (''rW'', Some ''t1'', SEATED, 7200000, 12600000)"
    using step5 by (auto simp: map_eq_Cons_conv)
  ultimately have after: "\<not> noDoubleBooking (snd walkInAttempt)"
    by (simp add: noDoubleBooking_def)
  from before after step5 show ?thesis by blast
qed

end
